theory Spec2Isabelle
  imports Main "HOL-Library.AList"
begin

section \<open>The streaming chat orchestrator (NextCharService) and the chat store\<close>

text \<open>
  A shallow embedding of \<^verbatim>\<open>NextCharService\<close> (the abstract chat service:
  \<^verbatim>\<open>isReady\<close>, \<^verbatim>\<open>abort\<close>, \<^verbatim>\<open>chat\<close>), of
  \<^verbatim>\<open>MoonshotChatService.makeRequest\<close>, and of the tool-call handling of
  \<^verbatim>\<open>useChatStore\<close> (\<^verbatim>\<open>processMessage\<close>, \<^verbatim>\<open>createMessage\<close>,
  \<^verbatim>\<open>updateMessage\<close>, \<^verbatim>\<open>fetchMessages\<close>).

  The service is an object with mutable fields; the model passes a record of those fields
  through every operation. Everything the service does to the outside world (network
  requests, callbacks, Tool Host invocations) and every update of its depth counter is
  appended to a log kept in the same record, so that statements such as "one completion
  callback" or "no network request" are statements about that log. What the outside world
  answers (the HTTP response, the stream reader, the Tool Host, a user calling
  \<^verbatim>\<open>abort()\<close> while \<^verbatim>\<open>chat\<close> is suspended at an \<^verbatim>\<open>await\<close>) is a
  parameter: one \<open>round\<close> per network round-trip.

  Two things are taken for granted: the callbacks registered on the service return
  normally (they are the caller's code), and so does the abstract method
  \<^verbatim>\<open>makeToolMessages\<close>, which is a parameter of the model. One invocation runs
  at a time: a top-level call is not interleaved with another one on the same service.
  Lists are values here; this is faithful because the service never mutates an array
  after handing it to a callback (the accumulated tool calls are only appended to before
  the completion, and the next top-level call replaces the array by a new one).
\<close>

subsection \<open>JavaScript values\<close>

text \<open>
  Tool arguments, tool results and database columns are dynamically typed. Numbers are
  modelled as integers (token counts and codes are integers in every use made of them).
\<close>

datatype jsval =
    JUndefined
  | JNull
  | JBool bool
  | JNum int
  | JStr string
  | JArr "jsval list"
  | JObj "(string \<times> jsval) list"

text \<open>\<^verbatim>\<open>Array.isArray\<close>.\<close>

fun isArray :: "jsval \<Rightarrow> bool" where
  "isArray (JArr xs) = True"
| "isArray v = False"

text \<open>Truthiness, as used by \<^verbatim>\<open>x ? a : b\<close>, \<^verbatim>\<open>!x\<close> and \<^verbatim>\<open>x || y\<close>.\<close>

fun truthy :: "jsval \<Rightarrow> bool" where
  "truthy JUndefined = False"
| "truthy JNull = False"
| "truthy (JBool b) = b"
| "truthy (JNum n) = (n \<noteq> 0)"
| "truthy (JStr s) = (s \<noteq> [])"
| "truthy (JArr xs) = True"
| "truthy (JObj fs) = True"

subsection \<open>Data of the orchestrator\<close>

text \<open>\<^verbatim>\<open>IChatRequestMessage\<close>: one turn of the conversation sent to the provider.\<close>

record chatRequestMessage =
  role :: string
  m_content :: jsval

text \<open>\<^verbatim>\<open>ITool\<close>: the pending tool call of a read result.\<close>

record tool =
  t_name :: string
  t_args :: jsval

text \<open>\<^verbatim>\<open>IToolCall\<close> as \<^verbatim>\<open>chat\<close> builds it: \<^verbatim>\<open>{name, args, response}\<close>.\<close>

record toolCall =
  name :: string
  args :: jsval
  response :: jsval

text \<open>The error descriptor of a completion payload: \<^verbatim>\<open>{code, message}\<close>.\<close>

record errorDescriptor =
  code :: int
  message :: string

text \<open>
  A thrown value (\<^verbatim>\<open>error: any\<close> in the \<^verbatim>\<open>catch\<close> clause): its optional
  \<^verbatim>\<open>code\<close> (taken to be a number when present), its optional \<^verbatim>\<open>message\<close>,
  and what \<^verbatim>\<open>toString()\<close> gives.
\<close>

record thrown =
  e_code :: "int option"
  e_message :: "string option"
  e_toString :: string

text \<open>\<^verbatim>\<open>IChatResponseMessage\<close>, the payload of the completion callback.\<close>

record chatResponseMessage =
  content :: string
  toolCalls :: "toolCall list"
  p_inputTokens :: int
  p_outputTokens :: int
  error :: "errorDescriptor option"

text \<open>
  What \<^verbatim>\<open>chatReader.read\<close> resolves to. Every field is optional in the source
  (\<^verbatim>\<open>readResult.tool\<close>, \<^verbatim>\<open>readResult.toolCalls || []\<close>,
  \<^verbatim>\<open>readResult?.inputTokens\<close>).
\<close>

record readResult =
  rr_tool :: "tool option"
  rr_toolCalls :: "toolCall list option"
  rr_inputTokens :: "int option"
  rr_outputTokens :: "int option"
  rr_error :: "errorDescriptor option"

subsection \<open>The log of effects\<close>

datatype event =
    NetworkRequest "chatRequestMessage list"
      \<comment> \<open>\<^verbatim>\<open>this.makeRequest(messages)\<close> is invoked\<close>
  | Reading string
      \<comment> \<open>\<^verbatim>\<open>this.onReadingCallback(chunk)\<close>\<close>
  | ToolCallsNotified string
      \<comment> \<open>\<^verbatim>\<open>this.onToolCallsCallback(toolName)\<close>\<close>
  | ErrorCallback thrown bool
      \<comment> \<open>\<^verbatim>\<open>this.onErrorCallback(error, aborted)\<close>\<close>
  | CallTool string "string option" jsval
      \<comment> \<open>\<^verbatim>\<open>window.electron.mcp.callTool({client, name, args})\<close>\<close>
  | Complete chatResponseMessage
      \<comment> \<open>\<^verbatim>\<open>this.onCompleteCallback(payload)\<close>\<close>
  | DepthIncremented
      \<comment> \<open>\<^verbatim>\<open>this.currentRecursionDepth++\<close>\<close>
  | DepthDecremented
      \<comment> \<open>\<^verbatim>\<open>this.currentRecursionDepth--\<close>\<close>

subsection \<open>The service object\<close>

text \<open>
  \<^verbatim>\<open>apiSettings\<close>: declared as strings, but read from the settings store, where a
  value may be missing; \<open>None\<close> is a missing value.
\<close>

record apiSettings =
  base :: "string option"
  key :: "string option"
  model :: "string option"

text \<open>
  The fields of \<^verbatim>\<open>NextCharService\<close>. An \<^verbatim>\<open>AbortController\<close> is an object
  with identity: \<open>abortController\<close> is the identity of the current one,
  \<open>aborted c\<close> is \<^verbatim>\<open>signal.aborted\<close> of controller \<open>c\<close>, and
  \<open>controllers\<close> counts the controllers created so far (the next fresh identity).
\<close>

record service =
  apiSchema :: "string list"
  settings :: apiSettings
  inputTokens :: int
  outputTokens :: int
  toolCallsWithResponses :: "toolCall list"
  currentRecursionDepth :: int
  abortController :: nat
  aborted :: "nat \<Rightarrow> bool"
  controllers :: nat
  trace :: "event list"

definition MAX_RECURSION_DEPTH :: int where
  "MAX_RECURSION_DEPTH = 10"

text \<open>The state the constructor leaves: one controller, counters at zero, nothing logged.\<close>

definition new_service :: "string list \<Rightarrow> apiSettings \<Rightarrow> service" where
  "new_service schema api =
     \<lparr> apiSchema = schema, settings = api, inputTokens = 0, outputTokens = 0,
       toolCallsWithResponses = [], currentRecursionDepth = 0,
       abortController = 0, aborted = (\<lambda>c. False), controllers = 1, trace = [] \<rparr>"

definition emit :: "event \<Rightarrow> service \<Rightarrow> service" where
  "emit e s = s\<lparr>trace := trace s @ [e]\<rparr>"

text \<open>\<^verbatim>\<open>this.abortController = new AbortController()\<close>.\<close>

definition newAbortController :: "service \<Rightarrow> service" where
  "newAbortController s =
     s\<lparr>abortController := controllers s,
       aborted := (aborted s)(controllers s := False),
       controllers := controllers s + 1\<rparr>"

text \<open>\<^verbatim>\<open>abort()\<close>: \<^verbatim>\<open>this.abortController?.abort()\<close>.\<close>

definition abort :: "service \<Rightarrow> service" where
  "abort s = s\<lparr>aborted := (aborted s)(abortController s := True)\<rparr>"

text \<open>
  JavaScript is single-threaded: a user's \<^verbatim>\<open>abort()\<close> can only run while
  \<^verbatim>\<open>chat\<close> is suspended at an \<^verbatim>\<open>await\<close>. \<open>suspended b\<close> is such a
  suspension, during which \<^verbatim>\<open>abort()\<close> is called iff \<open>b\<close>.
\<close>

definition suspended :: "bool \<Rightarrow> service \<Rightarrow> service" where
  "suspended b s = (if b then abort s else s)"

text \<open>
  \<^verbatim>\<open>MoonshotChatService.makeRequest\<close>: the arguments it passes to \<^verbatim>\<open>fetch\<close>.
  \<open>payload\<close> is \<^verbatim>\<open>JSON.stringify(await this.makePayload(messages))\<close>; a template
  literal renders a missing setting as \<^verbatim>\<open>undefined\<close>. The signal is the one of the
  service's current controller.
\<close>

record fetchInit =
  fetch_url :: string
  fetch_method :: string
  fetch_headers :: "(string \<times> string) list"
  fetch_body :: string
  fetch_signal :: nat

definition template :: "string option \<Rightarrow> string" where
  "template v = (case v of None \<Rightarrow> ''undefined'' | Some x \<Rightarrow> x)"

definition makeRequest :: "string \<Rightarrow> service \<Rightarrow> fetchInit" where
  "makeRequest payload s =
     \<lparr> fetch_url = template (base (settings s)) @ ''/v1/chat/completions'',
       fetch_method = ''POST'',
       fetch_headers = [(''Content-Type'', ''application/json''),
                        (''Authorization'', ''Bearer '' @ template (key (settings s)))],
       fetch_body = payload,
       fetch_signal = abortController s \<rparr>"

text \<open>\<^verbatim>\<open>isReady\<close>. \<^verbatim>\<open>!this.apiSettings.model\<close> holds for a missing and for an empty string.\<close>

definition missing :: "string option \<Rightarrow> bool" where
  "missing v = (case v of None \<Rightarrow> True | Some x \<Rightarrow> x = [])"

definition isReady :: "service \<Rightarrow> bool" where
  "isReady s =
     (if ''model'' \<in> set (apiSchema s) \<and> missing (model (settings s)) then False
      else if ''base'' \<in> set (apiSchema s) \<and> missing (base (settings s)) then False
      else if ''key'' \<in> set (apiSchema s) \<and> missing (key (settings s)) then False
      else True)"

subsection \<open>Splitting the qualified tool name\<close>

text \<open>
  \<^verbatim>\<open>String.prototype.split\<close> with a non-empty separator: the pieces between the
  successive, non-overlapping occurrences of the separator, scanning from the left.
  \<open>cur\<close> is the piece being read, reversed. The only separator used is \<^verbatim>\<open>'--'\<close>.
\<close>

function split_sep :: "string \<Rightarrow> string \<Rightarrow> string \<Rightarrow> string list" where
  "split_sep sep cur [] = [rev cur]"
| "split_sep sep cur (x # xs) =
     (if sep \<noteq> [] \<and> take (length sep) (x # xs) = sep
      then rev cur # split_sep sep [] (drop (length sep) (x # xs))
      else split_sep sep (x # cur) xs)"
  by pat_completeness auto
termination
  by (relation "measure (\<lambda>(sep, cur, s). length s)") auto

definition split :: "string \<Rightarrow> string \<Rightarrow> string list" where
  "split s sep = split_sep sep [] s"

text \<open>
  \<^verbatim>\<open>const [client, name] = readResult.tool.name.split('--')\<close>: the first two
  elements of the array; a missing element is \<^verbatim>\<open>undefined\<close> (\<open>None\<close>). The
  array returned by \<^verbatim>\<open>split\<close> is never empty.
\<close>

definition client_and_name :: "string \<Rightarrow> string \<times> string option" where
  "client_and_name qualified =
     (case split qualified ''--'' of
        [] \<Rightarrow> ([], None)
      | [c] \<Rightarrow> (c, None)
      | c # n # rest \<Rightarrow> (c, Some n))"

subsection \<open>One network round-trip as the outside world answers it\<close>

text \<open>
  Modelled from the spec: \<^verbatim>\<open>raiseError\<close> of \<^verbatim>\<open>utils/util\<close> is not among the
  sources; the spec has it raise a classified HTTP error for a non-success status. The
  error it raises is part of the round.
\<close>

datatype request_outcome =
    RequestRejected thrown
      \<comment> \<open>\<^verbatim>\<open>makeRequest\<close> rejects (network failure, aborted fetch)\<close>
  | BadStatus thrown
      \<comment> \<open>\<^verbatim>\<open>response.status !== 200\<close>: the body is read and \<^verbatim>\<open>raiseError\<close>
          raises this error (or reading the body rejects with it)\<close>
  | NoBody
      \<comment> \<open>status 200 and \<^verbatim>\<open>response.body?.getReader()\<close> is undefined\<close>
  | Streaming
      \<comment> \<open>status 200 with a body to read\<close>

text \<open>The sub-callbacks the reader invokes while \<^verbatim>\<open>chatReader.read\<close> is awaited.\<close>

datatype read_event =
    Progress string
  | ReaderError thrown
  | ToolCalls string

datatype read_outcome =
    ReadRejected thrown
  | ReadResolved readResult

datatype tool_outcome =
    ToolRejected thrown
      \<comment> \<open>the promise of \<^verbatim>\<open>callTool\<close> rejects\<close>
  | ToolResolved jsval
      \<comment> \<open>the promise resolves: a result, or a failure value on the same channel\<close>

text \<open>
  A round: what happens at each suspension point of one round-trip, in order. The fields
  of a later suspension point are not looked at when an earlier one ends the round.
  \<open>abortAtRequest\<close>, \<open>abortAtRead\<close> and \<open>abortAtTool\<close> say whether the user calls
  \<^verbatim>\<open>abort()\<close> while the request (and, for a bad status, its body), the stream, or
  the Tool Host is awaited.
\<close>

record round =
  abortAtRequest :: bool
  request :: request_outcome
  readEvents :: "read_event list"
  abortAtRead :: bool
  readOutcome :: read_outcome
  abortAtTool :: bool
  toolOutcome :: tool_outcome

subsection \<open>chat\<close>

text \<open>
  The callbacks passed to \<^verbatim>\<open>chatReader.read\<close>: \<^verbatim>\<open>onProgress\<close> appends to the
  local \<^verbatim>\<open>reply\<close> and forwards the chunk, \<^verbatim>\<open>onError\<close> forwards to the error
  callback with \<^verbatim>\<open>aborted = false\<close>, \<^verbatim>\<open>onToolCalls\<close> is the tool-calls callback.
\<close>

fun on_read_event :: "read_event \<Rightarrow> string \<times> service \<Rightarrow> string \<times> service" where
  "on_read_event (Progress chunk) (reply, s) = (reply @ chunk, emit (Reading chunk) s)"
| "on_read_event (ReaderError err) (reply, s) = (reply, emit (ErrorCallback err False) s)"
| "on_read_event (ToolCalls n) (reply, s) = (reply, emit (ToolCallsNotified n) s)"

definition no_reader :: thrown where
  "no_reader = \<lparr> e_code = None, e_message = Some ''No reader'', e_toString = ''Error: No reader'' \<rparr>"

text \<open>
  How the body of the \<^verbatim>\<open>try\<close> block ends before the recursive call is made:
  it is about to call \<^verbatim>\<open>this.chat(_messages)\<close>, it has returned (after the
  completion callback of a terminal round, or through the early \<^verbatim>\<open>return\<close> of the
  missing reader), or it has thrown with the local \<^verbatim>\<open>reply\<close> as it stands.
\<close>

datatype try_result =
    Recurse "chatRequestMessage list"
  | Returned
  | Threw string thrown

text \<open>
  The \<^verbatim>\<open>try\<close> block up to the recursive call. \<open>makeToolMessages\<close> is the
  abstract method of the same name.
\<close>

definition try_block ::
  "(tool \<Rightarrow> jsval \<Rightarrow> chatRequestMessage list) \<Rightarrow> round \<Rightarrow> chatRequestMessage list
     \<Rightarrow> service \<Rightarrow> try_result \<times> service" where
  "try_block makeToolMessages r messages s0 =
     (let s1 = suspended (abortAtRequest r) (emit (NetworkRequest messages) s0) in
      case request r of
        RequestRejected err \<Rightarrow> (Threw [] err, s1)
      | BadStatus err \<Rightarrow> (Threw [] err, s1)
      | NoBody \<Rightarrow> (Returned, emit (ErrorCallback no_reader False) s1)
      | Streaming \<Rightarrow>
          (let (reply, s2) = foldl (\<lambda>acc ev. on_read_event ev acc) ([], s1) (readEvents r);
               s3 = suspended (abortAtRead r) s2
           in case readOutcome r of
                ReadRejected err \<Rightarrow> (Threw reply err, s3)
              | ReadResolved res \<Rightarrow>
                  (let s4 = (case rr_inputTokens res of
                               None \<Rightarrow> s3
                             | Some n \<Rightarrow> if n \<noteq> 0 then s3\<lparr>inputTokens := inputTokens s3 + n\<rparr> else s3);
                       s5 = (case rr_outputTokens res of
                               None \<Rightarrow> s4
                             | Some n \<Rightarrow> if n \<noteq> 0 then s4\<lparr>outputTokens := outputTokens s4 + n\<rparr> else s4)
                   in case rr_tool res of
                        Some t \<Rightarrow>
                          (let (client, nm) = client_and_name (t_name t);
                               s6 = suspended (abortAtTool r) (emit (CallTool client nm (t_args t)) s5)
                           in case toolOutcome r of
                                ToolRejected err \<Rightarrow> (Threw reply err, s6)
                              | ToolResolved toolCallsResult \<Rightarrow>
                                  (let newToolCall = \<lparr> name = t_name t, args = t_args t,
                                                       response = toolCallsResult \<rparr>;
                                       s7 = s6\<lparr>toolCallsWithResponses :=
                                                 toolCallsWithResponses s6 @ [newToolCall]\<rparr>
                                   in (Recurse (messages @ makeToolMessages t toolCallsResult), s7)))
                      | None \<Rightarrow>
                          (let allToolCalls = toolCallsWithResponses s5 @
                                 (case rr_toolCalls res of None \<Rightarrow> [] | Some tcs \<Rightarrow> tcs);
                               s6 = emit (Complete \<lparr> content = reply, toolCalls = allToolCalls,
                                                     p_inputTokens = inputTokens s5,
                                                     p_outputTokens = outputTokens s5,
                                                     error = rr_error res \<rparr>) s5
                           in (Returned, s6\<lparr>inputTokens := 0, outputTokens := 0\<rparr>)))))"

text \<open>
  The \<^verbatim>\<open>catch\<close> block: the error callback with \<^verbatim>\<open>!!signal?.aborted\<close> (the
  signal of the controller this invocation created), then the completion callback with
  \<^verbatim>\<open>error.code || 500\<close> and \<^verbatim>\<open>error.message || error.toString()\<close>, then the
  reset of the counters.
\<close>

definition error_code :: "thrown \<Rightarrow> int" where
  "error_code err = (case e_code err of None \<Rightarrow> 500 | Some c \<Rightarrow> if c \<noteq> 0 then c else 500)"

definition error_message :: "thrown \<Rightarrow> string" where
  "error_message err =
     (case e_message err of None \<Rightarrow> e_toString err | Some m \<Rightarrow> if m \<noteq> [] then m else e_toString err)"

definition catch_block :: "nat \<Rightarrow> string \<Rightarrow> thrown \<Rightarrow> service \<Rightarrow> service" where
  "catch_block signal reply err s0 =
     (let s1 = emit (ErrorCallback err (aborted s0 signal)) s0;
          s2 = emit (Complete \<lparr> content = reply, toolCalls = toolCallsWithResponses s1,
                                p_inputTokens = inputTokens s1, p_outputTokens = outputTokens s1,
                                error = Some \<lparr> code = error_code err, message = error_message err \<rparr> \<rparr>) s1
      in s2\<lparr>inputTokens := 0, outputTokens := 0\<rparr>)"

text \<open>The \<^verbatim>\<open>finally\<close> block.\<close>

definition finally_block :: "service \<Rightarrow> service" where
  "finally_block s =
     emit DepthDecremented (s\<lparr>currentRecursionDepth := currentRecursionDepth s - 1\<rparr>)"

text \<open>
  The payload of the depth-ceiling path. The message is the template literal with
  \<open>MAX_RECURSION_DEPTH = 10\<close> filled in.
\<close>

definition ceiling_payload :: "service \<Rightarrow> chatResponseMessage" where
  "ceiling_payload s =
     \<lparr> content = ''Maximum recursion depth reached for tool calls.'',
       toolCalls = toolCallsWithResponses s,
       p_inputTokens = inputTokens s,
       p_outputTokens = outputTokens s,
       error = Some \<lparr> code = 500,
                      message = ''Maximum recursion depth (10) reached for tool calls.'' \<rparr> \<rparr>"

text \<open>
  The first statement of \<^verbatim>\<open>chat\<close>: a top-level call (depth 0) starts with an
  empty list of tool calls.
\<close>

definition top_level_reset :: "service \<Rightarrow> service" where
  "top_level_reset s =
     (if currentRecursionDepth s = 0 then s\<lparr>toolCallsWithResponses := []\<rparr> else s)"

text \<open>
  The statements between the ceiling check and the \<^verbatim>\<open>try\<close>:
  \<^verbatim>\<open>this.currentRecursionDepth++\<close> and the fresh \<^verbatim>\<open>AbortController\<close>.
\<close>

definition enter :: "service \<Rightarrow> service" where
  "enter s =
     newAbortController
       (emit DepthIncremented (s\<lparr>currentRecursionDepth := currentRecursionDepth s + 1\<rparr>))"

text \<open>
  What the reader's callbacks amount to: the text they append to the local reply and
  what they append to the log.
\<close>

definition chunks_of :: "read_event list \<Rightarrow> string" where
  "chunks_of evs = concat (map (\<lambda>ev. case ev of Progress c \<Rightarrow> c | _ \<Rightarrow> []) evs)"

definition log_of :: "read_event list \<Rightarrow> event list" where
  "log_of evs = map (\<lambda>ev. case ev of Progress c \<Rightarrow> Reading c
                              | ReaderError err \<Rightarrow> ErrorCallback err False
                              | ToolCalls n \<Rightarrow> ToolCallsNotified n) evs"

subsection \<open>Facts the termination of chat rests on\<close>

text \<open>
  The auxiliary operations leave the depth counter alone, and so does the
  \<^verbatim>\<open>try\<close> block up to the recursive call.
\<close>

lemma emit_fields [simp]:
  "currentRecursionDepth (emit e s) = currentRecursionDepth s"
  "inputTokens (emit e s) = inputTokens s"
  "outputTokens (emit e s) = outputTokens s"
  "toolCallsWithResponses (emit e s) = toolCallsWithResponses s"
  "abortController (emit e s) = abortController s"
  "aborted (emit e s) = aborted s"
  "controllers (emit e s) = controllers s"
  "apiSchema (emit e s) = apiSchema s"
  "settings (emit e s) = settings s"
  "trace (emit e s) = trace s @ [e]"
  by (simp_all add: emit_def)

lemma suspended_fields [simp]:
  "currentRecursionDepth (suspended b s) = currentRecursionDepth s"
  "inputTokens (suspended b s) = inputTokens s"
  "outputTokens (suspended b s) = outputTokens s"
  "toolCallsWithResponses (suspended b s) = toolCallsWithResponses s"
  "abortController (suspended b s) = abortController s"
  "controllers (suspended b s) = controllers s"
  "apiSchema (suspended b s) = apiSchema s"
  "settings (suspended b s) = settings s"
  "trace (suspended b s) = trace s"
  by (simp_all add: suspended_def abort_def)

lemma suspended_aborted [simp]:
  "aborted (suspended b s) c = (aborted s c \<or> (b \<and> c = abortController s))"
  by (simp add: suspended_def abort_def)

lemma newAbortController_fields [simp]:
  "currentRecursionDepth (newAbortController s) = currentRecursionDepth s"
  "inputTokens (newAbortController s) = inputTokens s"
  "outputTokens (newAbortController s) = outputTokens s"
  "toolCallsWithResponses (newAbortController s) = toolCallsWithResponses s"
  "abortController (newAbortController s) = controllers s"
  "controllers (newAbortController s) = controllers s + 1"
  "aborted (newAbortController s) = (aborted s)(controllers s := False)"
  "apiSchema (newAbortController s) = apiSchema s"
  "settings (newAbortController s) = settings s"
  "trace (newAbortController s) = trace s"
  by (simp_all add: newAbortController_def)

lemma read_events_fold:
  "foldl (\<lambda>acc ev. on_read_event ev acc) (reply, s) evs =
     (reply @ chunks_of evs, s\<lparr>trace := trace s @ log_of evs\<rparr>)"
proof (induction evs arbitrary: reply s)
  case Nil
  show ?case by (simp add: chunks_of_def log_of_def)
next
  case (Cons ev evs)
  show ?case
    by (cases ev) (simp_all add: Cons.IH chunks_of_def log_of_def emit_def)
qed

lemma try_block_depth [simp]:
  "currentRecursionDepth (snd (try_block mk r messages s)) = currentRecursionDepth s"
  by (simp add: try_block_def read_events_fold Let_def
        split: request_outcome.split read_outcome.split option.split tool_outcome.split prod.split)

text \<open>
  \<^verbatim>\<open>chat\<close>. \<open>env\<close> answers the successive network requests of the invocation:
  \<open>env 0\<close> is the round-trip this invocation makes, \<open>env 1\<close> the one its recursive
  call makes, and so on. The recursion is bounded by the depth ceiling, which is what
  the termination proof uses. The ceiling path returns before the increment and outside
  the \<^verbatim>\<open>try\<close>, so the \<^verbatim>\<open>finally\<close> block does not run on it.
\<close>

function chat ::
  "(tool \<Rightarrow> jsval \<Rightarrow> chatRequestMessage list) \<Rightarrow> (nat \<Rightarrow> round) \<Rightarrow> chatRequestMessage list
     \<Rightarrow> service \<Rightarrow> service" where
  "chat makeToolMessages env messages s0 =
     (let s1 = top_level_reset s0 in
      if currentRecursionDepth s1 \<ge> MAX_RECURSION_DEPTH
      then emit (Complete (ceiling_payload s1)) s1
      else
        (let s2 = enter s1;
             signal = abortController s2;
             tried = try_block makeToolMessages (env 0) messages s2
         in finally_block
              (case fst tried of
                 Recurse msgs \<Rightarrow> chat makeToolMessages (\<lambda>i. env (Suc i)) msgs (snd tried)
               | Returned \<Rightarrow> snd tried
               | Threw reply err \<Rightarrow> catch_block signal reply err (snd tried))))"
  by pat_completeness auto
termination
  by (relation "measure (\<lambda>(mk, env, messages, s). nat (MAX_RECURSION_DEPTH - currentRecursionDepth s))")
     (auto simp: MAX_RECURSION_DEPTH_def top_level_reset_def enter_def split: if_splits)

declare chat.simps [simp del]

subsection \<open>The chat store: tool calls of stored messages\<close>

text \<open>
  A message of the store (\<^verbatim>\<open>IChatMessage\<close> as the database returns it,
  \<^verbatim>\<open>IChatMessageInternal\<close> as the store keeps it) is an object whose
  \<^verbatim>\<open>toolCalls\<close> property is dynamically typed: a JSON string in the database, an
  array in the store. An object is the list of its properties in insertion order;
  \<open>getProp\<close> reads a property (\<^verbatim>\<open>undefined\<close> when absent), \<open>AList.update\<close>
  writes one (in place when present, at the end otherwise), and \<open>spread a b\<close> is
  \<^verbatim>\<open>{...a, ...b}\<close>.
\<close>

type_synonym obj = "(string \<times> jsval) list"

definition getProp :: "obj \<Rightarrow> string \<Rightarrow> jsval" where
  "getProp m k = (case map_of m k of None \<Rightarrow> JUndefined | Some v \<Rightarrow> v)"

definition spread :: "obj \<Rightarrow> obj \<Rightarrow> obj" where
  "spread a b = foldl (\<lambda>acc (k, v). AList.update k v acc) a b"

text \<open>
  A \<^verbatim>\<open>try\<close> block with its \<^verbatim>\<open>catch\<close> clause: the body ends in a value
  (\<open>Inr\<close>) or in an exception (\<open>Inl\<close>), which the handler gets.
\<close>

definition try_catch :: "'e + 'a \<Rightarrow> ('e \<Rightarrow> 'e + 'a) \<Rightarrow> 'e + 'a" where
  "try_catch body handler = (case body of Inl e \<Rightarrow> handler e | Inr v \<Rightarrow> Inr v)"

text \<open>
  \<^verbatim>\<open>processMessage\<close>. \<open>parse\<close> is \<^verbatim>\<open>JSON.parse\<close>, which returns the
  parsed value or throws a \<^verbatim>\<open>SyntaxError\<close>; the argument is \<open>None\<close> for a null
  or undefined message. The local \<^verbatim>\<open>toolCalls\<close> starts as the empty array and is
  assigned inside the two nested \<^verbatim>\<open>try\<close> blocks, whose \<^verbatim>\<open>catch\<close> clauses
  only log: after an exception it still is the empty array. The result is a message, or
  the exception \<^verbatim>\<open>processMessage\<close> ends in.
\<close>

definition processMessage :: "(string \<Rightarrow> thrown + jsval) \<Rightarrow> obj option \<Rightarrow> thrown + obj" where
  "processMessage parse chatMessage =
     (case chatMessage of
        None \<Rightarrow> Inr [(''id'', JStr []), (''chatId'', JStr []), (''toolCalls'', JArr []),
                      (''severity'', JStr ''info'')]
      | Some m \<Rightarrow>
          (let field = getProp m ''toolCalls'';
               assigned =
                 (if field \<noteq> JUndefined \<and> field \<noteq> JNull
                  then try_catch
                         (case field of
                            JStr text \<Rightarrow>
                              try_catch
                                (case parse text of
                                   Inl parseError \<Rightarrow> Inl parseError
                                 | Inr parsed \<Rightarrow>
                                     Inr (case parsed of JArr xs \<Rightarrow> xs | _ \<Rightarrow> []))
                                (\<lambda>parseError. Inr [])
                          | JArr xs \<Rightarrow> Inr xs
                          | _ \<Rightarrow> Inr [])
                         (\<lambda>e. Inr [])
                  else Inr [])
           in case assigned of
                Inl e \<Rightarrow> Inl e
              | Inr calls \<Rightarrow> Inr (AList.update ''toolCalls'' (JArr calls) m)))"

text \<open>The part of the store's state the messages live in.\<close>

record store =
  messages :: "obj list"

text \<open>
  \<^verbatim>\<open>createMessage\<close>. \<open>stringify\<close> is \<^verbatim>\<open>JSON.stringify\<close>, \<open>msgId\<close> the
  fresh identifier, \<open>now\<close> the creation time, and \<open>inserted\<close> how the database
  insertion ends (\<open>Some err\<close> when its promise rejects, which rejects
  \<^verbatim>\<open>createMessage\<close>). The result is the message returned and the new state, or
  the rejection.
\<close>

definition createMessage ::
  "(string \<Rightarrow> thrown + jsval) \<Rightarrow> (jsval \<Rightarrow> string) \<Rightarrow> string \<Rightarrow> int \<Rightarrow> thrown option \<Rightarrow> obj
     \<Rightarrow> store \<Rightarrow> thrown + obj \<times> store" where
  "createMessage parse stringify msgId now inserted chatMessage st =
     (let dbMessage =
            AList.update ''createdAt'' (JNum now)
              (AList.update ''toolCalls''
                 (JStr (if truthy (getProp chatMessage ''toolCalls'')
                        then stringify (getProp chatMessage ''toolCalls'') else ''[]''))
                 (AList.update ''id'' (JStr msgId) chatMessage))
      in case inserted of
           Some err \<Rightarrow> Inl err
         | None \<Rightarrow>
             (case processMessage parse (Some dbMessage) of
                Inl e \<Rightarrow> Inl e
              | Inr processedMsg \<Rightarrow>
                  Inr (processedMsg, st\<lparr>messages := messages st @ [processedMsg]\<rparr>)))"

text \<open>\<^verbatim>\<open>Array.prototype.findIndex\<close>, with \<open>None\<close> for \<open>-1\<close>.\<close>

fun findIndex :: "('a \<Rightarrow> bool) \<Rightarrow> 'a list \<Rightarrow> nat option" where
  "findIndex p [] = None"
| "findIndex p (x # xs) =
     (if p x then Some 0 else (case findIndex p xs of None \<Rightarrow> None | Some i \<Rightarrow> Some (Suc i)))"

text \<open>
  The state update of \<^verbatim>\<open>updateMessage\<close> (the function passed to
  \<^verbatim>\<open>set(produce(...))\<close>, run when the database update succeeded). \<open>msg\<close> is the
  object of columns the preceding statements of \<^verbatim>\<open>updateMessage\<close> assembled from
  the update: its \<^verbatim>\<open>id\<close> and the columns to be written. The result is the new
  state, or the exception the update ends in.
\<close>

definition updateMessage_set ::
  "(string \<Rightarrow> thrown + jsval) \<Rightarrow> obj \<Rightarrow> store \<Rightarrow> thrown + store" where
  "updateMessage_set parse msg st =
     (case findIndex (\<lambda>m. getProp m ''id'' = getProp msg ''id'') (messages st) of
        None \<Rightarrow> Inr st
      | Some index \<Rightarrow>
          (let currentMessage = messages st ! index
           in case processMessage parse (Some (spread currentMessage msg)) of
                Inl e \<Rightarrow> Inl e
              | Inr updatedMessage \<Rightarrow>
                  Inr (st\<lparr>messages := (messages st)[index := updatedMessage]\<rparr>)))"

text \<open>
  \<^verbatim>\<open>Array.prototype.map\<close> with a callback that may throw: the elements are mapped
  in order, and the first exception ends the call.
\<close>

fun array_map :: "('a \<Rightarrow> 'e + 'b) \<Rightarrow> 'a list \<Rightarrow> 'e + 'b list" where
  "array_map f [] = Inr []"
| "array_map f (x # xs) =
     (case f x of
        Inl e \<Rightarrow> Inl e
      | Inr y \<Rightarrow> (case array_map f xs of Inl e \<Rightarrow> Inl e | Inr ys \<Rightarrow> Inr (y # ys)))"

text \<open>
  \<^verbatim>\<open>fetchMessages\<close>. \<open>rows\<close> is how the database query ends: the rows of the
  chat, or a rejection. The query and the processing of the rows are inside one
  \<^verbatim>\<open>try\<close>, whose \<^verbatim>\<open>catch\<close> returns the empty array and leaves the state as
  it is. The result is the array returned and the new state.
\<close>

definition fetchMessages ::
  "(string \<Rightarrow> thrown + jsval) \<Rightarrow> string \<Rightarrow> thrown + obj list \<Rightarrow> string \<Rightarrow> store
     \<Rightarrow> obj list \<times> store" where
  "fetchMessages parse tempChatId rows chatId st =
     (if chatId = tempChatId then ([], st\<lparr>messages := []\<rparr>)
      else case (case rows of
                   Inl err \<Rightarrow> Inl err
                 | Inr msgs \<Rightarrow>
                     array_map (\<lambda>msg. if truthy (getProp msg ''toolCalls'')
                                       then processMessage parse (Some msg)
                                       else Inr (AList.update ''toolCalls'' (JArr []) msg)) msgs) of
             Inl caught \<Rightarrow> ([], st)
           | Inr processedMessages \<Rightarrow>
               (processedMessages, st\<lparr>messages := processedMessages\<rparr>))"

subsection \<open>Notions for stating the properties\<close>

text \<open>The network requests and the completion payloads of a log, in order.\<close>

fun requests :: "event list \<Rightarrow> chatRequestMessage list list" where
  "requests [] = []"
| "requests (NetworkRequest ms # es) = ms # requests es"
| "requests (e # es) = requests es"

fun completions :: "event list \<Rightarrow> chatResponseMessage list" where
  "completions [] = []"
| "completions (Complete p # es) = p # completions es"
| "completions (e # es) = completions es"

text \<open>The number of increments and of decrements of the depth counter in a log.\<close>

definition increments :: "event list \<Rightarrow> nat" where
  "increments es = length (filter (\<lambda>e. e = DepthIncremented) es)"

definition decrements :: "event list \<Rightarrow> nat" where
  "decrements es = length (filter (\<lambda>e. e = DepthDecremented) es)"

text \<open>What an invocation of \<^verbatim>\<open>chat\<close> appends to the log.\<close>

definition chat_events ::
  "(tool \<Rightarrow> jsval \<Rightarrow> chatRequestMessage list) \<Rightarrow> (nat \<Rightarrow> round) \<Rightarrow> chatRequestMessage list
     \<Rightarrow> service \<Rightarrow> event list" where
  "chat_events mk env ms s = drop (length (trace s)) (trace (chat mk env ms s))"

text \<open>
  The number a read result adds to a counter: \<^verbatim>\<open>if (readResult?.inputTokens)
  this.inputTokens += readResult.inputTokens\<close> adds nothing for a missing or zero count.
\<close>

definition reported :: "int option \<Rightarrow> int" where
  "reported n = (case n of None \<Rightarrow> 0 | Some k \<Rightarrow> k)"

text \<open>
  A round that leads to the recursive call: the stream is read to its end, the read
  result \<open>res\<close> has the pending tool call \<open>t\<close>, and the Tool Host resolves with
  \<open>answer\<close>. A terminal round: the read result has no pending tool call.
\<close>

definition tool_round :: "round \<Rightarrow> readResult \<Rightarrow> tool \<Rightarrow> jsval \<Rightarrow> bool" where
  "tool_round r res t answer =
     (request r = Streaming \<and> readOutcome r = ReadResolved res \<and> rr_tool res = Some t \<and>
      toolOutcome r = ToolResolved answer)"

definition terminal_round :: "round \<Rightarrow> readResult \<Rightarrow> bool" where
  "terminal_round r res =
     (request r = Streaming \<and> readOutcome r = ReadResolved res \<and> rr_tool res = None)"

text \<open>
  A chain of tool rounds: round \<open>i\<close> has the pending tool call \<open>T i\<close>, answered by
  the Tool Host with \<open>A i\<close>. \<open>conversation\<close> is the message list of the \<open>n\<close>-th
  request (the original messages and the tool messages of the rounds before it),
  \<open>call\<close> the tool call a round records, \<open>round_events\<close> what round \<open>i\<close>
  appends to the log before the recursive call.
\<close>

definition conversation ::
  "(tool \<Rightarrow> jsval \<Rightarrow> chatRequestMessage list) \<Rightarrow> chatRequestMessage list \<Rightarrow> (nat \<Rightarrow> tool)
     \<Rightarrow> (nat \<Rightarrow> jsval) \<Rightarrow> nat \<Rightarrow> chatRequestMessage list" where
  "conversation mk ms T A n = ms @ concat (map (\<lambda>i. mk (T i) (A i)) [0..<n])"

definition call :: "tool \<Rightarrow> jsval \<Rightarrow> toolCall" where
  "call t answer = \<lparr> name = t_name t, args = t_args t, response = answer \<rparr>"

definition round_events ::
  "(tool \<Rightarrow> jsval \<Rightarrow> chatRequestMessage list) \<Rightarrow> chatRequestMessage list \<Rightarrow> (nat \<Rightarrow> round)
     \<Rightarrow> (nat \<Rightarrow> tool) \<Rightarrow> (nat \<Rightarrow> jsval) \<Rightarrow> nat \<Rightarrow> event list" where
  "round_events mk ms env T A i =
     [DepthIncremented, NetworkRequest (conversation mk ms T A i)] @ log_of (readEvents (env i)) @
     [CallTool (fst (client_and_name (t_name (T i)))) (snd (client_and_name (t_name (T i))))
        (t_args (T i))]"

text \<open>\<^verbatim>\<open>String.prototype.includes\<close>: the separator occurs somewhere in the string.\<close>

fun str_includes :: "string \<Rightarrow> string \<Rightarrow> bool" where
  "str_includes [] sep = (sep = [])"
| "str_includes (x # xs) sep = (take (length sep) (x # xs) = sep \<or> str_includes xs sep)"

text \<open>The payload the \<^verbatim>\<open>catch\<close> block builds in the invocation entered in state \<open>s\<close>.\<close>

definition error_payload :: "string \<Rightarrow> thrown \<Rightarrow> service \<Rightarrow> chatResponseMessage" where
  "error_payload reply err s =
     \<lparr> content = reply, toolCalls = toolCallsWithResponses (top_level_reset s),
       p_inputTokens = inputTokens s, p_outputTokens = outputTokens s,
       error = Some \<lparr> code = error_code err, message = error_message err \<rparr> \<rparr>"

text \<open>The \<^verbatim>\<open>toolCalls\<close> property of a message is an array.\<close>

definition toolCalls_is_array :: "obj \<Rightarrow> bool" where
  "toolCalls_is_array m = isArray (getProp m ''toolCalls'')"

text \<open>
  The \<^verbatim>\<open>toolCalls\<close> of an exposed message as the spec words it: "a JSON-string
  value from the database is parsed, and a null, undefined, unparseable, or non-array
  value is replaced by the empty array". This definition follows the spec, not the
  source; it is what \<^verbatim>\<open>processMessage\<close> is compared with.
\<close>

definition toolCalls_per_spec :: "(string \<Rightarrow> thrown + jsval) \<Rightarrow> jsval \<Rightarrow> jsval" where
  "toolCalls_per_spec parse v =
     (case v of
        JStr text \<Rightarrow> (case parse text of Inr (JArr xs) \<Rightarrow> JArr xs | _ \<Rightarrow> JArr [])
      | JArr xs \<Rightarrow> JArr xs
      | _ \<Rightarrow> JArr [])"

text \<open>
  The message \<^verbatim>\<open>processMessage\<close> is expected to return for a message \<open>m\<close>,
  the row \<^verbatim>\<open>createMessage\<close> writes to the database, and the message
  \<^verbatim>\<open>fetchMessages\<close> is expected to expose for a row: a falsy column (undefined,
  null, the empty string) is not parsed.
\<close>

definition with_toolCalls :: "(string \<Rightarrow> thrown + jsval) \<Rightarrow> obj \<Rightarrow> obj" where
  "with_toolCalls parse m =
     AList.update ''toolCalls'' (toolCalls_per_spec parse (getProp m ''toolCalls'')) m"

definition written_row :: "(jsval \<Rightarrow> string) \<Rightarrow> string \<Rightarrow> int \<Rightarrow> obj \<Rightarrow> obj" where
  "written_row stringify msgId now m =
     AList.update ''createdAt'' (JNum now)
       (AList.update ''toolCalls''
          (JStr (if truthy (getProp m ''toolCalls'')
                 then stringify (getProp m ''toolCalls'') else ''[]''))
          (AList.update ''id'' (JStr msgId) m))"

definition fetched_row :: "(string \<Rightarrow> thrown + jsval) \<Rightarrow> obj \<Rightarrow> obj" where
  "fetched_row parse m =
     AList.update ''toolCalls''
       (if truthy (getProp m ''toolCalls'') then toolCalls_per_spec parse (getProp m ''toolCalls'')
        else JArr []) m"


text \<open>
  \<^verbatim>\<open>abort()\<close> during a Tool Host invocation that resolves: \<open>without_tool_abort r\<close>
  is the round \<open>r\<close> with that call of \<^verbatim>\<open>abort()\<close> left out. A round whose Tool
  Host rejects is left as it is.
\<close>

definition resolves :: "round \<Rightarrow> bool" where
  "resolves r = (case toolOutcome r of ToolRejected err \<Rightarrow> False | ToolResolved answer \<Rightarrow> True)"

definition without_tool_abort :: "round \<Rightarrow> round" where
  "without_tool_abort r = (if resolves r then r\<lparr>abortAtTool := False\<rparr> else r)"

text \<open>
  Modelled from the spec: \<^verbatim>\<open>fetch\<close> and the stream reader are not among the
  sources. The spec has the request and the stream as cancellable suspension points: once
  the round's cancellation token is cancelled, the awaited operation does not continue.
  \<open>cancellable err r\<close> is the round \<open>r\<close> with these two operations behaving so: when
  \<^verbatim>\<open>abort()\<close> is called while the request is awaited, the request rejects with
  \<open>err\<close>; when it is called while the stream is read, the read rejects with \<open>err\<close>.
  Nothing is said of the Tool Host.
\<close>

definition cancellable :: "thrown \<Rightarrow> round \<Rightarrow> round" where
  "cancellable err r =
     r\<lparr>request := (if abortAtRequest r then RequestRejected err else request r),
       readOutcome := (if abortAtRead r then ReadRejected err else readOutcome r)\<rparr>"

text \<open>The service with the state of every cancellation token forgotten.\<close>

definition erase :: "service \<Rightarrow> service" where
  "erase s = s\<lparr>aborted := (\<lambda>c. False)\<rparr>"

subsection \<open>Concrete scenarios\<close>

text \<open>
  A service as its constructor leaves it, a \<^verbatim>\<open>makeToolMessages\<close> that reports the
  answer in one message, two tools, a round whose read result asks for a tool (reporting
  one input and two output tokens), and a round that answers with text.
\<close>

definition fresh :: service where
  "fresh = new_service [] \<lparr> base = None, key = None, model = None \<rparr>"

definition tool_message :: "tool \<Rightarrow> jsval \<Rightarrow> chatRequestMessage list" where
  "tool_message t answer = [\<lparr> role = ''tool'', m_content = answer \<rparr>]"

definition search :: tool where
  "search = \<lparr> t_name = ''files--search'', t_args = JStr ''report'' \<rparr>"


definition asks_for :: "tool \<Rightarrow> readResult" where
  "asks_for t = \<lparr> rr_tool = Some t, rr_toolCalls = None, rr_inputTokens = Some 1,
                  rr_outputTokens = Some 2, rr_error = None \<rparr>"

definition asking :: "tool \<Rightarrow> jsval \<Rightarrow> round" where
  "asking t answer =
     \<lparr> abortAtRequest = False, request = Streaming, readEvents = [], abortAtRead = False,
       readOutcome = ReadResolved (asks_for t), abortAtTool = False,
       toolOutcome = ToolResolved answer \<rparr>"

definition says :: "int \<Rightarrow> int \<Rightarrow> readResult" where
  "says a b = \<lparr> rr_tool = None, rr_toolCalls = None, rr_inputTokens = Some a,
                rr_outputTokens = Some b, rr_error = None \<rparr>"

definition answering :: "string \<Rightarrow> int \<Rightarrow> int \<Rightarrow> round" where
  "answering text a b =
     \<lparr> abortAtRequest = False, request = Streaming, readEvents = [Progress text],
       abortAtRead = False, readOutcome = ReadResolved (says a b), abortAtTool = False,
       toolOutcome = ToolResolved JUndefined \<rparr>"




text \<open>
  A service whose depth counter stands at the ceiling, as in the eleventh nested
  invocation.
\<close>

definition at_ceiling :: service where
  "at_ceiling = fresh\<lparr>currentRecursionDepth := 10\<rparr>"

text \<open>
  A round whose response has status 200 and no body, alone and after a tool round.
\<close>

definition unreadable :: round where
  "unreadable = (answering ''lost'' 5 7)\<lparr>request := NoBody\<rparr>"

definition then_unreadable :: "nat \<Rightarrow> round" where
  "then_unreadable i = (if i = 0 then asking search (JStr ''found'') else unreadable)"

text \<open>The service after a top-level call that ran into the ceiling.\<close>

definition after_ceiling :: service where
  "after_ceiling = chat tool_message (\<lambda>i. asking search JNull) [] fresh"

text \<open>
  A service whose provider requires model, base and key, with the key missing.
\<close>

definition all_required :: "string list" where
  "all_required = [''base'', ''key'', ''model'']"

definition without_key :: service where
  "without_key =
     new_service all_required \<lparr> base = Some ''https://api.moonshot.cn'', key = None,
                                 model = Some ''moonshot-v1-8k'' \<rparr>"

text \<open>
  A tool whose own name contains the separator, and a chain that calls it and then
  answers.
\<close>

definition read_all :: tool where
  "read_all = \<lparr> t_name = ''files--read--all'', t_args = JStr ''notes'' \<rparr>"

definition reads_all :: "nat \<Rightarrow> round" where
  "reads_all i = (if i = 0 then asking read_all (JStr ''text'') else answering ''done'' 5 7)"


text \<open>
  A failure value as the Tool Host returns it on the result channel, and a chain whose
  first tool call fails.
\<close>

definition failure :: jsval where
  "failure = JObj [(''isError'', JBool True), (''content'', JStr ''tool crashed'')]"

definition fails_then_answers :: "nat \<Rightarrow> round" where
  "fails_then_answers i = (if i = 0 then asking search failure else answering ''sorry'' 5 7)"

text \<open>
  Rounds during which the user calls \<^verbatim>\<open>abort()\<close>: while the Tool Host is awaited
  (and it resolves all the same), while the request is awaited, and while the stream is
  read, after one chunk. \<open>abort_error\<close> is the error a cancelled \<^verbatim>\<open>fetch\<close>
  rejects with.
\<close>

definition aborted_during_tool :: "nat \<Rightarrow> round" where
  "aborted_during_tool i =
     (if i = 0 then (asking search (JStr ''found''))\<lparr>abortAtTool := True\<rparr>
      else answering ''done'' 5 7)"

definition abort_error :: thrown where
  "abort_error = \<lparr> e_code = None, e_message = Some ''The user aborted a request.'',
                   e_toString = ''AbortError: The user aborted a request.'' \<rparr>"

definition aborted_request :: round where
  "aborted_request = (answering ''hello'' 5 7)\<lparr>abortAtRequest := True\<rparr>"

definition aborted_read :: round where
  "aborted_read = (answering ''par'' 5 7)\<lparr>abortAtRead := True\<rparr>"

text \<open>
  A \<^verbatim>\<open>JSON.parse\<close> and a \<^verbatim>\<open>JSON.stringify\<close> that know the empty array,
  the array \<^verbatim>\<open>[1]\<close> and the empty object; \<^verbatim>\<open>JSON.parse\<close> throws on every
  other text. Two database rows, one whose \<^verbatim>\<open>toolCalls\<close> column holds the JSON
  text of an array and one whose column does not parse, the messages the store shows for
  them, a new message with one tool call and the message created from it, and an update
  that gives the second message a tool call.
\<close>

definition syntax_error :: thrown where
  "syntax_error = \<lparr> e_code = None, e_message = Some ''Unexpected token'',
                     e_toString = ''SyntaxError: Unexpected token'' \<rparr>"

definition parse_sample :: "string \<Rightarrow> thrown + jsval" where
  "parse_sample text =
     (if text = ''[]'' then Inr (JArr [])
      else if text = ''[1]'' then Inr (JArr [JNum 1])
      else if text = ''{}'' then Inr (JObj [])
      else Inl syntax_error)"

definition stringify_sample :: "jsval \<Rightarrow> string" where
  "stringify_sample v =
     (if v = JArr [] then ''[]'' else if v = JArr [JNum 1] then ''[1]'' else ''{}'')"

definition stored_row :: obj where
  "stored_row = [(''id'', JStr ''msg_1''), (''chatId'', JStr ''chat_1''),
                 (''toolCalls'', JStr ''[1]'')]"

definition shown_row :: obj where
  "shown_row = [(''id'', JStr ''msg_1''), (''chatId'', JStr ''chat_1''),
                (''toolCalls'', JArr [JNum 1])]"

definition broken_row :: obj where
  "broken_row = [(''id'', JStr ''msg_0''), (''chatId'', JStr ''chat_1''),
                 (''toolCalls'', JStr ''not json'')]"

definition mended_row :: obj where
  "mended_row = [(''id'', JStr ''msg_0''), (''chatId'', JStr ''chat_1''),
                 (''toolCalls'', JArr [])]"

definition draft :: obj where
  "draft = [(''chatId'', JStr ''chat_1''), (''prompt'', JStr ''hello''),
            (''toolCalls'', JArr [JNum 1])]"

definition created_row :: obj where
  "created_row = [(''chatId'', JStr ''chat_1''), (''prompt'', JStr ''hello''),
                  (''toolCalls'', JArr [JNum 1]), (''id'', JStr ''msg_2''),
                  (''createdAt'', JNum 7)]"

definition amendment :: obj where
  "amendment = [(''id'', JStr ''msg_0''), (''toolCalls'', JStr ''[1]'')]"

definition amended_row :: obj where
  "amended_row = [(''id'', JStr ''msg_0''), (''chatId'', JStr ''chat_1''),
                  (''toolCalls'', JArr [JNum 1])]"



subsection \<open>Basic facts\<close>

lemma requests_append [simp]: "requests (xs @ ys) = requests xs @ requests ys"
  by (induction xs rule: requests.induct) simp_all

lemma completions_append [simp]: "completions (xs @ ys) = completions xs @ completions ys"
  by (induction xs rule: completions.induct) simp_all

lemma increments_append [simp]: "increments (xs @ ys) = increments xs + increments ys"
  by (simp add: increments_def)

lemma decrements_append [simp]: "decrements (xs @ ys) = decrements xs + decrements ys"
  by (simp add: decrements_def)

lemma log_of_projections [simp]:
  "requests (log_of evs) = []"
  "completions (log_of evs) = []"
  "increments (log_of evs) = 0"
  "decrements (log_of evs) = 0"
  by (induction evs) (simp_all add: log_of_def increments_def decrements_def split: read_event.split)

lemma top_level_reset_fields [simp]:
  "currentRecursionDepth (top_level_reset s) = currentRecursionDepth s"
  "inputTokens (top_level_reset s) = inputTokens s"
  "outputTokens (top_level_reset s) = outputTokens s"
  "abortController (top_level_reset s) = abortController s"
  "aborted (top_level_reset s) = aborted s"
  "controllers (top_level_reset s) = controllers s"
  "trace (top_level_reset s) = trace s"
  by (simp_all add: top_level_reset_def)

lemma top_level_reset_idem [simp]: "top_level_reset (top_level_reset s) = top_level_reset s"
  by (simp add: top_level_reset_def)

lemma top_level_reset_below [simp]:
  "currentRecursionDepth s \<noteq> 0 \<Longrightarrow> top_level_reset s = s"
  by (simp add: top_level_reset_def)

lemma enter_fields [simp]:
  "currentRecursionDepth (enter s) = currentRecursionDepth s + 1"
  "inputTokens (enter s) = inputTokens s"
  "outputTokens (enter s) = outputTokens s"
  "toolCallsWithResponses (enter s) = toolCallsWithResponses s"
  "abortController (enter s) = controllers s"
  "controllers (enter s) = controllers s + 1"
  "aborted (enter s) = (aborted s)(controllers s := False)"
  "trace (enter s) = trace s @ [DepthIncremented]"
  by (simp_all add: enter_def)

lemma finally_block_fields [simp]:
  "currentRecursionDepth (finally_block s) = currentRecursionDepth s - 1"
  "inputTokens (finally_block s) = inputTokens s"
  "outputTokens (finally_block s) = outputTokens s"
  "toolCallsWithResponses (finally_block s) = toolCallsWithResponses s"
  "abortController (finally_block s) = abortController s"
  "controllers (finally_block s) = controllers s"
  "aborted (finally_block s) = aborted s"
  "trace (finally_block s) = trace s @ [DepthDecremented]"
  by (simp_all add: finally_block_def)

lemma catch_block_fields [simp]:
  "currentRecursionDepth (catch_block signal reply err s) = currentRecursionDepth s"
  "inputTokens (catch_block signal reply err s) = 0"
  "outputTokens (catch_block signal reply err s) = 0"
  "toolCallsWithResponses (catch_block signal reply err s) = toolCallsWithResponses s"
  "abortController (catch_block signal reply err s) = abortController s"
  "controllers (catch_block signal reply err s) = controllers s"
  "aborted (catch_block signal reply err s) = aborted s"
  "trace (catch_block signal reply err s) =
     trace s @ [ErrorCallback err (aborted s signal),
                Complete \<lparr> content = reply, toolCalls = toolCallsWithResponses s,
                           p_inputTokens = inputTokens s, p_outputTokens = outputTokens s,
                           error = Some \<lparr> code = error_code err, message = error_message err \<rparr> \<rparr>]"
  by (simp_all add: catch_block_def Let_def)

lemma increments_simps [simp]:
  "increments [] = 0"
  "increments (DepthIncremented # es) = Suc (increments es)"
  "increments (NetworkRequest ms # es) = increments es"
  "increments (Reading c # es) = increments es"
  "increments (ToolCallsNotified n # es) = increments es"
  "increments (ErrorCallback err b # es) = increments es"
  "increments (CallTool cl nm a # es) = increments es"
  "increments (Complete p # es) = increments es"
  "increments (DepthDecremented # es) = increments es"
  by (simp_all add: increments_def)

lemma decrements_simps [simp]:
  "decrements [] = 0"
  "decrements (DepthDecremented # es) = Suc (decrements es)"
  "decrements (NetworkRequest ms # es) = decrements es"
  "decrements (Reading c # es) = decrements es"
  "decrements (ToolCallsNotified n # es) = decrements es"
  "decrements (ErrorCallback err b # es) = decrements es"
  "decrements (CallTool cl nm a # es) = decrements es"
  "decrements (Complete p # es) = decrements es"
  "decrements (DepthIncremented # es) = decrements es"
  by (simp_all add: decrements_def)

subsection \<open>One unfolding of chat\<close>

lemma chat_ceiling:
  "MAX_RECURSION_DEPTH \<le> currentRecursionDepth s \<Longrightarrow>
     chat mk env ms s = emit (Complete (ceiling_payload s)) s"
  by (subst chat.simps) (simp add: MAX_RECURSION_DEPTH_def top_level_reset_def)

lemma chat_below:
  "currentRecursionDepth s < MAX_RECURSION_DEPTH \<Longrightarrow>
     chat mk env ms s =
       finally_block
         (case fst (try_block mk (env 0) ms (enter (top_level_reset s))) of
            Recurse msgs \<Rightarrow> chat mk (\<lambda>i. env (Suc i)) msgs
                               (snd (try_block mk (env 0) ms (enter (top_level_reset s))))
          | Returned \<Rightarrow> snd (try_block mk (env 0) ms (enter (top_level_reset s)))
          | Threw reply err \<Rightarrow>
              catch_block (abortController (enter (top_level_reset s))) reply err
                (snd (try_block mk (env 0) ms (enter (top_level_reset s)))))"
  by (subst chat.simps) (simp add: Let_def)

lemma chat_top_level_reset: "chat mk env ms (top_level_reset s) = chat mk env ms s"
  by (subst chat.simps, subst (2) chat.simps) simp

subsection \<open>The try block, case by case\<close>

lemma try_block_tool:
  assumes "tool_round r res t answer"
  shows "fst (try_block mk r ms s) = Recurse (ms @ mk t answer)"
    and "trace (snd (try_block mk r ms s)) =
           trace s @ [NetworkRequest ms] @ log_of (readEvents r) @
             [CallTool (fst (client_and_name (t_name t))) (snd (client_and_name (t_name t))) (t_args t)]"
    and "inputTokens (snd (try_block mk r ms s)) = inputTokens s + reported (rr_inputTokens res)"
    and "outputTokens (snd (try_block mk r ms s)) = outputTokens s + reported (rr_outputTokens res)"
    and "toolCallsWithResponses (snd (try_block mk r ms s)) =
           toolCallsWithResponses s @ [\<lparr> name = t_name t, args = t_args t, response = answer \<rparr>]"
    and "abortController (snd (try_block mk r ms s)) = abortController s"
    and "controllers (snd (try_block mk r ms s)) = controllers s"
  using assms
  by (simp_all add: try_block_def tool_round_def read_events_fold Let_def reported_def
        split: option.split prod.split)

lemma try_block_terminal:
  assumes "terminal_round r res"
  shows "fst (try_block mk r ms s) = Returned"
    and "trace (snd (try_block mk r ms s)) =
           trace s @ [NetworkRequest ms] @ log_of (readEvents r) @
             [Complete \<lparr> content = chunks_of (readEvents r),
                         toolCalls = toolCallsWithResponses s @
                            (case rr_toolCalls res of None \<Rightarrow> [] | Some tcs \<Rightarrow> tcs),
                         p_inputTokens = inputTokens s + reported (rr_inputTokens res),
                         p_outputTokens = outputTokens s + reported (rr_outputTokens res),
                         error = rr_error res \<rparr>]"
    and "inputTokens (snd (try_block mk r ms s)) = 0"
    and "outputTokens (snd (try_block mk r ms s)) = 0"
    and "toolCallsWithResponses (snd (try_block mk r ms s)) = toolCallsWithResponses s"
  using assms
  by (simp_all add: try_block_def terminal_round_def read_events_fold Let_def reported_def
        split: option.split prod.split)

text \<open>What any round appends to the log: the request first.\<close>

lemma try_block_log:
  "\<exists>evs. trace (snd (try_block mk r ms s)) = trace s @ NetworkRequest ms # evs \<and>
         requests evs = [] \<and> increments evs = 0 \<and> decrements evs = 0 \<and>
         length (completions evs) =
           (if fst (try_block mk r ms s) = Returned \<and> request r \<noteq> NoBody then 1 else 0)"
  by (simp add: try_block_def read_events_fold Let_def
        split: request_outcome.split read_outcome.split option.split tool_outcome.split prod.split)

subsection \<open>What every invocation of chat does\<close>

text \<open>
  By induction along the recursion of \<^verbatim>\<open>chat\<close>: the depth counter is restored,
  the log is only extended, and in the extension the increments, the decrements and the
  network requests are equally many, at most as many as the ceiling leaves room for.
  An invocation entered below the ceiling starts with its increment and its request and
  ends with its decrement; one entered at the ceiling only invokes the completion
  callback.
\<close>

lemma chat_log:
  "currentRecursionDepth (chat mk env ms s) = currentRecursionDepth s \<and>
   (\<exists>evs. trace (chat mk env ms s) = trace s @ evs \<and>
          increments evs = decrements evs \<and>
          decrements evs = length (requests evs) \<and>
          length (requests evs) \<le> nat (MAX_RECURSION_DEPTH - currentRecursionDepth s) \<and>
          length (completions evs) \<le> 1 \<and>
          (if MAX_RECURSION_DEPTH \<le> currentRecursionDepth s
           then evs = [Complete (ceiling_payload s)]
           else \<exists>mid. evs = DepthIncremented # NetworkRequest ms # mid @ [DepthDecremented]))"
proof (induction mk env ms s rule: chat.induct)
  case (1 mk env ms s)
  show ?case
  proof (cases "MAX_RECURSION_DEPTH \<le> currentRecursionDepth s")
    case True
    then show ?thesis by (simp add: chat_ceiling)
  next
    case False
    define s2 where "s2 = enter (top_level_reset s)"
    define t where "t = try_block mk (env 0) ms s2"
    have below: "currentRecursionDepth s < MAX_RECURSION_DEPTH" using False by simp
    have unfold: "chat mk env ms s =
        finally_block (case fst t of
            Recurse msgs \<Rightarrow> chat mk (\<lambda>i. env (Suc i)) msgs (snd t)
          | Returned \<Rightarrow> snd t
          | Threw reply err \<Rightarrow> catch_block (abortController s2) reply err (snd t))"
      unfolding t_def s2_def by (rule chat_below [OF below])
    obtain tevs where tevs: "trace (snd t) = trace s2 @ NetworkRequest ms # tevs"
        "requests tevs = []" "increments tevs = 0" "decrements tevs = 0"
        "length (completions tevs) =
           (if fst t = Returned \<and> request (env 0) \<noteq> NoBody then 1 else 0)"
      using try_block_log [of mk "env 0" ms s2] unfolding t_def by blast
    have ds2: "currentRecursionDepth (snd t) = currentRecursionDepth s + 1"
      unfolding t_def s2_def by simp
    have ts2: "trace s2 = trace s @ [DepthIncremented]" unfolding s2_def by simp
    show ?thesis
    proof (cases "fst t")
      case (Recurse msgs)
      have "\<not> MAX_RECURSION_DEPTH \<le> currentRecursionDepth (top_level_reset s)"
        using False by simp
      from "1.IH" [OF refl this refl refl refl, of msgs] Recurse
      obtain evs where ih:
          "currentRecursionDepth (chat mk (\<lambda>i. env (Suc i)) msgs (snd t)) =
             currentRecursionDepth (snd t)"
          "trace (chat mk (\<lambda>i. env (Suc i)) msgs (snd t)) = trace (snd t) @ evs"
          "increments evs = decrements evs" "decrements evs = length (requests evs)"
          "length (requests evs) \<le> nat (MAX_RECURSION_DEPTH - currentRecursionDepth (snd t))"
          "length (completions evs) \<le> 1"
        unfolding t_def s2_def by auto
      define mid where "mid = tevs @ evs"
      have "trace (chat mk env ms s) =
          trace s @ (DepthIncremented # NetworkRequest ms # mid @ [DepthDecremented])"
        by (simp add: unfold Recurse ih tevs ts2 mid_def)
      moreover have "currentRecursionDepth (chat mk env ms s) = currentRecursionDepth s"
        by (simp add: unfold Recurse ih ds2)
      moreover have "length (requests evs) < nat (MAX_RECURSION_DEPTH - currentRecursionDepth s)"
        using ih(5) below by (simp add: ds2)
      ultimately show ?thesis
        using ih tevs Recurse False
        by (intro conjI exI [of _ "DepthIncremented # NetworkRequest ms # mid @ [DepthDecremented]"])
           (simp_all add: mid_def)
    next
      case Returned
      have "trace (chat mk env ms s) =
          trace s @ (DepthIncremented # NetworkRequest ms # tevs @ [DepthDecremented])"
        by (simp add: unfold Returned tevs ts2)
      moreover have "currentRecursionDepth (chat mk env ms s) = currentRecursionDepth s"
        by (simp add: unfold Returned ds2)
      ultimately show ?thesis
        using tevs below False
        by (intro conjI exI [of _ "DepthIncremented # NetworkRequest ms # tevs @ [DepthDecremented]"])
           simp_all
    next
      case (Threw reply err)
      define mid where "mid = tevs @
          [ErrorCallback err (aborted (snd t) (abortController s2)),
           Complete \<lparr> content = reply, toolCalls = toolCallsWithResponses (snd t),
                      p_inputTokens = inputTokens (snd t), p_outputTokens = outputTokens (snd t),
                      error = Some \<lparr> code = error_code err, message = error_message err \<rparr> \<rparr>]"
      have "trace (chat mk env ms s) =
          trace s @ (DepthIncremented # NetworkRequest ms # mid @ [DepthDecremented])"
        by (simp add: unfold Threw tevs ts2 mid_def)
      moreover have "currentRecursionDepth (chat mk env ms s) = currentRecursionDepth s"
        by (simp add: unfold Threw ds2)
      ultimately show ?thesis
        using tevs below Threw False
        by (intro conjI exI [of _ "DepthIncremented # NetworkRequest ms # mid @ [DepthDecremented]"])
           (simp_all add: mid_def)
    qed
  qed
qed

subsection \<open>Chains of tool rounds\<close>

lemma conversation_0 [simp]: "conversation mk ms T A 0 = ms"
  by (simp add: conversation_def)

lemma conversation_shift:
  "conversation mk ms T A (Suc n) =
     conversation mk (ms @ mk (T 0) (A 0)) (\<lambda>i. T (Suc i)) (\<lambda>i. A (Suc i)) n"
  unfolding conversation_def by (simp only: map_upt_Suc) simp

lemma round_events_shift:
  "round_events mk ms env T A (Suc i) =
     round_events mk (ms @ mk (T 0) (A 0)) (\<lambda>i. env (Suc i)) (\<lambda>i. T (Suc i)) (\<lambda>i. A (Suc i)) i"
  by (simp add: round_events_def conversation_shift)

lemma round_events_projections [simp]:
  "requests (round_events mk ms env T A i) = [conversation mk ms T A i]"
  "completions (round_events mk ms env T A i) = []"
  "increments (round_events mk ms env T A i) = 1"
  "decrements (round_events mk ms env T A i) = 0"
  by (simp_all add: round_events_def)

lemma rounds_projections [simp]:
  "requests (concat (map (round_events mk ms env T A) [0..<n])) =
     map (conversation mk ms T A) [0..<n]"
  "completions (concat (map (round_events mk ms env T A) [0..<n])) = []"
  "increments (concat (map (round_events mk ms env T A) [0..<n])) = n"
  "decrements (concat (map (round_events mk ms env T A) [0..<n])) = 0"
  by (induction n) simp_all

lemma finally_pow_fields [simp]:
  "currentRecursionDepth ((finally_block ^^ n) s) = currentRecursionDepth s - int n"
  "inputTokens ((finally_block ^^ n) s) = inputTokens s"
  "outputTokens ((finally_block ^^ n) s) = outputTokens s"
  "toolCallsWithResponses ((finally_block ^^ n) s) = toolCallsWithResponses s"
  "trace ((finally_block ^^ n) s) = trace s @ replicate n DepthDecremented"
  by (induction n) (simp_all add: replicate_append_same)

lemma replicate_projections [simp]:
  "requests (replicate n DepthDecremented) = []"
  "completions (replicate n DepthDecremented) = []"
  by (induction n) simp_all

text \<open>
  A chain of \<open>n\<close> tool rounds below the ceiling reaches the \<open>n\<close>-th nested
  invocation with the counters summed, the tool calls appended in order and the log
  extended by the rounds; the \<open>n\<close> pending \<^verbatim>\<open>finally\<close> blocks run afterwards.
\<close>

lemma tool_chain:
  assumes "\<forall>i<n. tool_round (env i) (res i) (T i) (A i)"
      and "0 \<le> currentRecursionDepth s"
      and "currentRecursionDepth s + int n \<le> MAX_RECURSION_DEPTH"
  shows "\<exists>s'. chat mk env ms s =
                (finally_block ^^ n) (chat mk (\<lambda>i. env (i + n)) (conversation mk ms T A n) s') \<and>
              currentRecursionDepth s' = currentRecursionDepth s + int n \<and>
              top_level_reset s' = s' \<and>
              inputTokens s' = inputTokens s + (\<Sum>i<n. reported (rr_inputTokens (res i))) \<and>
              outputTokens s' = outputTokens s + (\<Sum>i<n. reported (rr_outputTokens (res i))) \<and>
              toolCallsWithResponses s' =
                toolCallsWithResponses (top_level_reset s) @ map (\<lambda>i. call (T i) (A i)) [0..<n] \<and>
              trace s' = trace s @ concat (map (round_events mk ms env T A) [0..<n])"
  using assms
proof (induction n arbitrary: env res T A ms s)
  case 0
  show ?case
    by (rule exI [of _ "top_level_reset s"]) (simp add: chat_top_level_reset)
next
  case (Suc n)
  define s1 where "s1 = snd (try_block mk (env 0) ms (enter (top_level_reset s)))"
  have first: "tool_round (env 0) (res 0) (T 0) (A 0)" using Suc.prems(1) by simp
  have below: "currentRecursionDepth s < MAX_RECURSION_DEPTH" using Suc.prems(3) by simp
  have step: "chat mk env ms s =
      finally_block (chat mk (\<lambda>i. env (Suc i)) (ms @ mk (T 0) (A 0)) s1)"
    by (simp add: chat_below [OF below] try_block_tool [OF first] s1_def)
  have d1: "currentRecursionDepth s1 = currentRecursionDepth s + 1"
    by (simp add: s1_def)
  have rest: "\<forall>i<n. tool_round (env (Suc i)) (res (Suc i)) (T (Suc i)) (A (Suc i))"
    using Suc.prems(1) by simp
  have "0 \<le> currentRecursionDepth s1" "currentRecursionDepth s1 + int n \<le> MAX_RECURSION_DEPTH"
    using Suc.prems(2,3) d1 by simp_all
  from Suc.IH [OF rest this, where ms = "ms @ mk (T 0) (A 0)"]
  obtain s' where ih:
    "chat mk (\<lambda>i. env (Suc i)) (ms @ mk (T 0) (A 0)) s1 =
       (finally_block ^^ n) (chat mk (\<lambda>i. env (Suc (i + n)))
          (conversation mk (ms @ mk (T 0) (A 0)) (\<lambda>i. T (Suc i)) (\<lambda>i. A (Suc i)) n) s')"
    "currentRecursionDepth s' = currentRecursionDepth s1 + int n"
    "top_level_reset s' = s'"
    "inputTokens s' = inputTokens s1 + (\<Sum>i<n. reported (rr_inputTokens (res (Suc i))))"
    "outputTokens s' = outputTokens s1 + (\<Sum>i<n. reported (rr_outputTokens (res (Suc i))))"
    "toolCallsWithResponses s' =
       toolCallsWithResponses (top_level_reset s1) @ map (\<lambda>i. call (T (Suc i)) (A (Suc i))) [0..<n]"
    "trace s' = trace s1 @
       concat (map (round_events mk (ms @ mk (T 0) (A 0)) (\<lambda>i. env (Suc i)) (\<lambda>i. T (Suc i))
                      (\<lambda>i. A (Suc i))) [0..<n])"
    by blast
  have nz: "currentRecursionDepth s1 \<noteq> 0" using Suc.prems(2) d1 by simp
  have c1: "chat mk env ms s =
      (finally_block ^^ Suc n) (chat mk (\<lambda>i. env (i + Suc n)) (conversation mk ms T A (Suc n)) s')"
    by (simp add: step ih(1) conversation_shift)
  have c2: "currentRecursionDepth s' = currentRecursionDepth s + int (Suc n)"
    by (simp add: ih(2) d1)
  have c4: "inputTokens s' = inputTokens s + (\<Sum>i<Suc n. reported (rr_inputTokens (res i)))"
    unfolding sum.lessThan_Suc_shift ih(4) by (simp add: s1_def try_block_tool [OF first])
  have c5: "outputTokens s' = outputTokens s + (\<Sum>i<Suc n. reported (rr_outputTokens (res i)))"
    unfolding sum.lessThan_Suc_shift ih(5) by (simp add: s1_def try_block_tool [OF first])
  have c6: "toolCallsWithResponses s' =
      toolCallsWithResponses (top_level_reset s) @ map (\<lambda>i. call (T i) (A i)) [0..<Suc n]"
    unfolding ih(6) top_level_reset_below [OF nz]
    by (simp only: map_upt_Suc) (simp add: s1_def try_block_tool [OF first] call_def)
  have t1: "trace s1 = trace s @ round_events mk ms env T A 0"
    by (simp add: s1_def try_block_tool [OF first] round_events_def)
  have c7: "trace s' = trace s @ concat (map (round_events mk ms env T A) [0..<Suc n])"
    unfolding ih(7) t1 by (simp only: map_upt_Suc round_events_shift) simp
  show ?case
    using c1 c2 ih(3) c4 c5 c6 c7 by blast
qed

lemma chat_events_eq:
  "trace (chat mk env ms s) = trace s @ evs \<Longrightarrow> chat_events mk env ms s = evs"
  by (simp add: chat_events_def)

text \<open>A terminal round, entered below the ceiling.\<close>

lemma chat_terminal:
  assumes "terminal_round (env 0) fin"
      and "currentRecursionDepth s < MAX_RECURSION_DEPTH"
      and "top_level_reset s = s"
  shows "trace (chat mk env ms s) =
           trace s @ [DepthIncremented, NetworkRequest ms] @ log_of (readEvents (env 0)) @
             [Complete \<lparr> content = chunks_of (readEvents (env 0)),
                         toolCalls = toolCallsWithResponses s @
                            (case rr_toolCalls fin of None \<Rightarrow> [] | Some tcs \<Rightarrow> tcs),
                         p_inputTokens = inputTokens s + reported (rr_inputTokens fin),
                         p_outputTokens = outputTokens s + reported (rr_outputTokens fin),
                         error = rr_error fin \<rparr>,
              DepthDecremented]"
    and "inputTokens (chat mk env ms s) = 0"
    and "outputTokens (chat mk env ms s) = 0"
  by (simp_all add: chat_below [OF assms(2)] try_block_terminal [OF assms(1)] assms(3))

text \<open>A chain of tool rounds that uses up the depth the ceiling leaves.\<close>

lemma chain_to_ceiling:
  assumes rounds: "\<forall>i<n. tool_round (env i) (res i) (T i) (A i)"
      and nonneg: "0 \<le> currentRecursionDepth s"
      and ceiling: "currentRecursionDepth s + int n = MAX_RECURSION_DEPTH"
  shows "chat_events mk env ms s =
           concat (map (round_events mk ms env T A) [0..<n]) @
           Complete \<lparr> content = ''Maximum recursion depth reached for tool calls.'',
                      toolCalls = toolCallsWithResponses (top_level_reset s) @
                                    map (\<lambda>i. call (T i) (A i)) [0..<n],
                      p_inputTokens = inputTokens s + (\<Sum>i<n. reported (rr_inputTokens (res i))),
                      p_outputTokens = outputTokens s + (\<Sum>i<n. reported (rr_outputTokens (res i))),
                      error = Some \<lparr> code = 500,
                        message = ''Maximum recursion depth (10) reached for tool calls.'' \<rparr> \<rparr>
           # replicate n DepthDecremented"
    and "inputTokens (chat mk env ms s) = inputTokens s + (\<Sum>i<n. reported (rr_inputTokens (res i)))"
    and "outputTokens (chat mk env ms s) = outputTokens s + (\<Sum>i<n. reported (rr_outputTokens (res i)))"
proof -
  from tool_chain [OF rounds nonneg, of mk ms] ceiling
  obtain s' where s':
    "chat mk env ms s =
       (finally_block ^^ n) (chat mk (\<lambda>i. env (i + n)) (conversation mk ms T A n) s')"
    "currentRecursionDepth s' = currentRecursionDepth s + int n"
    "inputTokens s' = inputTokens s + (\<Sum>i<n. reported (rr_inputTokens (res i)))"
    "outputTokens s' = outputTokens s + (\<Sum>i<n. reported (rr_outputTokens (res i)))"
    "toolCallsWithResponses s' =
       toolCallsWithResponses (top_level_reset s) @ map (\<lambda>i. call (T i) (A i)) [0..<n]"
    "trace s' = trace s @ concat (map (round_events mk ms env T A) [0..<n])"
    by auto
  have at: "MAX_RECURSION_DEPTH \<le> currentRecursionDepth s'" using s'(2) ceiling by simp
  have inner: "chat mk (\<lambda>i. env (i + n)) (conversation mk ms T A n) s' =
      emit (Complete (ceiling_payload s')) s'"
    by (rule chat_ceiling [OF at])
  show "chat_events mk env ms s =
           concat (map (round_events mk ms env T A) [0..<n]) @
           Complete \<lparr> content = ''Maximum recursion depth reached for tool calls.'',
                      toolCalls = toolCallsWithResponses (top_level_reset s) @
                                    map (\<lambda>i. call (T i) (A i)) [0..<n],
                      p_inputTokens = inputTokens s + (\<Sum>i<n. reported (rr_inputTokens (res i))),
                      p_outputTokens = outputTokens s + (\<Sum>i<n. reported (rr_outputTokens (res i))),
                      error = Some \<lparr> code = 500,
                        message = ''Maximum recursion depth (10) reached for tool calls.'' \<rparr> \<rparr>
           # replicate n DepthDecremented"
    by (rule chat_events_eq) (simp add: s' inner ceiling_payload_def)
  show "inputTokens (chat mk env ms s) = inputTokens s + (\<Sum>i<n. reported (rr_inputTokens (res i)))"
    by (simp add: s' inner)
  show "outputTokens (chat mk env ms s) = outputTokens s + (\<Sum>i<n. reported (rr_outputTokens (res i)))"
    by (simp add: s' inner)
qed

text \<open>A chain of tool rounds followed by a terminal round, all below the ceiling.\<close>

lemma chain_to_terminal:
  assumes rounds: "\<forall>i<n. tool_round (env i) (res i) (T i) (A i)"
      and terminal: "terminal_round (env n) fin"
      and nonneg: "0 \<le> currentRecursionDepth s"
      and below: "currentRecursionDepth s + int n < MAX_RECURSION_DEPTH"
  shows "chat_events mk env ms s =
           concat (map (round_events mk ms env T A) [0..<n]) @
           [DepthIncremented, NetworkRequest (conversation mk ms T A n)] @
           log_of (readEvents (env n)) @
           Complete \<lparr> content = chunks_of (readEvents (env n)),
                      toolCalls = toolCallsWithResponses (top_level_reset s) @
                                    map (\<lambda>i. call (T i) (A i)) [0..<n] @
                                    (case rr_toolCalls fin of None \<Rightarrow> [] | Some tcs \<Rightarrow> tcs),
                      p_inputTokens = inputTokens s + (\<Sum>i<n. reported (rr_inputTokens (res i))) +
                                        reported (rr_inputTokens fin),
                      p_outputTokens = outputTokens s + (\<Sum>i<n. reported (rr_outputTokens (res i))) +
                                        reported (rr_outputTokens fin),
                      error = rr_error fin \<rparr>
           # replicate (Suc n) DepthDecremented"
    and "inputTokens (chat mk env ms s) = 0"
    and "outputTokens (chat mk env ms s) = 0"
proof -
  from tool_chain [OF rounds nonneg, of mk ms] below
  obtain s' where s':
    "chat mk env ms s =
       (finally_block ^^ n) (chat mk (\<lambda>i. env (i + n)) (conversation mk ms T A n) s')"
    "currentRecursionDepth s' = currentRecursionDepth s + int n"
    "top_level_reset s' = s'"
    "inputTokens s' = inputTokens s + (\<Sum>i<n. reported (rr_inputTokens (res i)))"
    "outputTokens s' = outputTokens s + (\<Sum>i<n. reported (rr_outputTokens (res i)))"
    "toolCallsWithResponses s' =
       toolCallsWithResponses (top_level_reset s) @ map (\<lambda>i. call (T i) (A i)) [0..<n]"
    "trace s' = trace s @ concat (map (round_events mk ms env T A) [0..<n])"
    by auto
  have lt: "currentRecursionDepth s' < MAX_RECURSION_DEPTH" using s'(2) below by simp
  have last: "terminal_round ((\<lambda>i. env (i + n)) 0) fin" using terminal by simp
  note inner = chat_terminal [where env = "\<lambda>i. env (i + n)" and mk = mk
      and ms = "conversation mk ms T A n", OF last lt s'(3)]
  show "chat_events mk env ms s =
           concat (map (round_events mk ms env T A) [0..<n]) @
           [DepthIncremented, NetworkRequest (conversation mk ms T A n)] @
           log_of (readEvents (env n)) @
           Complete \<lparr> content = chunks_of (readEvents (env n)),
                      toolCalls = toolCallsWithResponses (top_level_reset s) @
                                    map (\<lambda>i. call (T i) (A i)) [0..<n] @
                                    (case rr_toolCalls fin of None \<Rightarrow> [] | Some tcs \<Rightarrow> tcs),
                      p_inputTokens = inputTokens s + (\<Sum>i<n. reported (rr_inputTokens (res i))) +
                                        reported (rr_inputTokens fin),
                      p_outputTokens = outputTokens s + (\<Sum>i<n. reported (rr_outputTokens (res i))) +
                                        reported (rr_outputTokens fin),
                      error = rr_error fin \<rparr>
           # replicate (Suc n) DepthDecremented"
    by (rule chat_events_eq) (simp add: s' inner replicate_append_same)
  show "inputTokens (chat mk env ms s) = 0" by (simp add: s'(1) inner)
  show "outputTokens (chat mk env ms s) = 0" by (simp add: s'(1) inner)
qed

subsection \<open>Chains that end in an exception\<close>




subsection \<open>Single rounds\<close>

text \<open>A round whose response has no body, entered below the ceiling.\<close>

lemma chat_no_body:
  assumes "request (env 0) = NoBody" and "currentRecursionDepth s < MAX_RECURSION_DEPTH"
  shows "trace (chat mk env ms s) =
           trace s @ [DepthIncremented, NetworkRequest ms, ErrorCallback no_reader False,
                      DepthDecremented]"
    and "inputTokens (chat mk env ms s) = inputTokens s"
    and "outputTokens (chat mk env ms s) = outputTokens s"
  using assms(1) by (simp_all add: chat_below [OF assms(2)] try_block_def)

text \<open>
  An invocation below the ceiling whose round ends in an answered tool call: the Tool
  Host is invoked with the split name, the call is recorded with the answer, and the
  recursive invocation gets the conversation extended by the tool messages.
\<close>

lemma chat_tool_round:
  assumes round: "tool_round (env 0) res t answer"
      and below: "currentRecursionDepth s < MAX_RECURSION_DEPTH"
  shows "\<exists>s'. chat mk env ms s =
                finally_block (chat mk (\<lambda>i. env (Suc i)) (ms @ mk t answer) s') \<and>
              chat_events mk env ms s =
                [DepthIncremented, NetworkRequest ms] @ log_of (readEvents (env 0)) @
                [CallTool (fst (client_and_name (t_name t))) (snd (client_and_name (t_name t)))
                   (t_args t)] @
                chat_events mk (\<lambda>i. env (Suc i)) (ms @ mk t answer) s' @ [DepthDecremented] \<and>
              toolCallsWithResponses s' =
                toolCallsWithResponses (top_level_reset s) @ [call t answer] \<and>
              currentRecursionDepth s' = currentRecursionDepth s + 1"
proof -
  define s' where "s' = snd (try_block mk (env 0) ms (enter (top_level_reset s)))"
  have step: "chat mk env ms s = finally_block (chat mk (\<lambda>i. env (Suc i)) (ms @ mk t answer) s')"
    by (simp add: chat_below [OF below] try_block_tool [OF round] s'_def)
  have tr: "trace s' = trace s @ [DepthIncremented, NetworkRequest ms] @ log_of (readEvents (env 0)) @
      [CallTool (fst (client_and_name (t_name t))) (snd (client_and_name (t_name t))) (t_args t)]"
    by (simp add: s'_def try_block_tool [OF round])
  from chat_log [of mk "\<lambda>i. env (Suc i)" "ms @ mk t answer" s'] obtain evs where
    evs: "trace (chat mk (\<lambda>i. env (Suc i)) (ms @ mk t answer) s') = trace s' @ evs" by blast
  have inner: "chat_events mk (\<lambda>i. env (Suc i)) (ms @ mk t answer) s' = evs"
    by (rule chat_events_eq [OF evs])
  have ev: "chat_events mk env ms s =
      [DepthIncremented, NetworkRequest ms] @ log_of (readEvents (env 0)) @
      [CallTool (fst (client_and_name (t_name t))) (snd (client_and_name (t_name t))) (t_args t)] @
      chat_events mk (\<lambda>i. env (Suc i)) (ms @ mk t answer) s' @ [DepthDecremented]"
    unfolding inner by (rule chat_events_eq) (simp add: step evs tr)
  have tc: "toolCallsWithResponses s' = toolCallsWithResponses (top_level_reset s) @ [call t answer]"
    by (simp add: s'_def try_block_tool [OF round] call_def)
  have d: "currentRecursionDepth s' = currentRecursionDepth s + 1"
    by (simp add: s'_def)
  show ?thesis using step ev tc d by blast
qed

text \<open>
  A tool round that leaves room below the ceiling is followed by the next network
  request, with the tool messages appended to the conversation.
\<close>

lemma chat_next_request:
  assumes round: "tool_round (env 0) res t answer"
      and room: "currentRecursionDepth s + 1 < MAX_RECURSION_DEPTH"
  shows "\<exists>s' rest.
           chat mk env ms s =
             finally_block (chat mk (\<lambda>i. env (Suc i)) (ms @ mk t answer) s') \<and>
           toolCallsWithResponses s' =
             toolCallsWithResponses (top_level_reset s) @
               [\<lparr> name = t_name t, args = t_args t, response = answer \<rparr>] \<and>
           chat_events mk env ms s =
             [DepthIncremented, NetworkRequest ms] @ log_of (readEvents (env 0)) @
             [CallTool (fst (client_and_name (t_name t))) (snd (client_and_name (t_name t)))
                (t_args t),
              DepthIncremented, NetworkRequest (ms @ mk t answer)] @ rest"
proof -
  have below: "currentRecursionDepth s < MAX_RECURSION_DEPTH" using room by simp
  from chat_tool_round [where env = env and mk = mk and ms = ms, OF round below] obtain s' where s':
    "chat mk env ms s = finally_block (chat mk (\<lambda>i. env (Suc i)) (ms @ mk t answer) s')"
    "chat_events mk env ms s =
       [DepthIncremented, NetworkRequest ms] @ log_of (readEvents (env 0)) @
       [CallTool (fst (client_and_name (t_name t))) (snd (client_and_name (t_name t))) (t_args t)] @
       chat_events mk (\<lambda>i. env (Suc i)) (ms @ mk t answer) s' @ [DepthDecremented]"
    "toolCallsWithResponses s' = toolCallsWithResponses (top_level_reset s) @ [call t answer]"
    "currentRecursionDepth s' = currentRecursionDepth s + 1"
    by blast
  from chat_log [of mk "\<lambda>i. env (Suc i)" "ms @ mk t answer" s'] obtain evs where evs:
    "trace (chat mk (\<lambda>i. env (Suc i)) (ms @ mk t answer) s') = trace s' @ evs"
    "if MAX_RECURSION_DEPTH \<le> currentRecursionDepth s'
     then evs = [Complete (ceiling_payload s')]
     else \<exists>mid. evs = DepthIncremented # NetworkRequest (ms @ mk t answer) # mid @ [DepthDecremented]"
    by blast
  have "\<not> MAX_RECURSION_DEPTH \<le> currentRecursionDepth s'" using s'(4) room by simp
  with evs(2) obtain mid where
    mid: "evs = DepthIncremented # NetworkRequest (ms @ mk t answer) # mid @ [DepthDecremented]"
    by auto
  have inner: "chat_events mk (\<lambda>i. env (Suc i)) (ms @ mk t answer) s' = evs"
    by (rule chat_events_eq [OF evs(1)])
  have "chat_events mk env ms s =
       [DepthIncremented, NetworkRequest ms] @ log_of (readEvents (env 0)) @
       [CallTool (fst (client_and_name (t_name t))) (snd (client_and_name (t_name t))) (t_args t),
        DepthIncremented, NetworkRequest (ms @ mk t answer)] @ (mid @ [DepthDecremented, DepthDecremented])"
    unfolding s'(2) inner mid by simp
  with s'(1,3) show ?thesis unfolding call_def by blast
qed

text \<open>
  A round whose request, or whose stream, rejects: the error callback gets the state of
  the round's own cancellation token, which is set iff \<^verbatim>\<open>abort()\<close> was called
  during this round, and the completion callback gets the text read so far.
\<close>

lemma chat_request_rejected:
  assumes "request (env 0) = RequestRejected err"
      and "currentRecursionDepth s < MAX_RECURSION_DEPTH"
  shows "chat_events mk env ms s =
           [DepthIncremented, NetworkRequest ms, ErrorCallback err (abortAtRequest (env 0)),
            Complete (error_payload [] err s), DepthDecremented]"
  using assms(1)
  by (intro chat_events_eq)
     (simp add: chat_below [OF assms(2)] try_block_def error_payload_def)

lemma chat_read_rejected:
  assumes "request (env 0) = Streaming" and "readOutcome (env 0) = ReadRejected err"
      and "currentRecursionDepth s < MAX_RECURSION_DEPTH"
  shows "chat_events mk env ms s =
           [DepthIncremented, NetworkRequest ms] @ log_of (readEvents (env 0)) @
           [ErrorCallback err (abortAtRequest (env 0) \<or> abortAtRead (env 0)),
            Complete (error_payload (chunks_of (readEvents (env 0))) err s), DepthDecremented]"
  using assms(1,2)
  by (intro chat_events_eq)
     (simp add: chat_below [OF assms(3)] try_block_def read_events_fold error_payload_def)

subsection \<open>Cancellation tokens nobody reads\<close>

text \<open>
  The state of a cancellation token is read in one place, the \<^verbatim>\<open>catch\<close> block,
  and there it is the token of the invocation's own round. So an \<^verbatim>\<open>abort()\<close>
  during a Tool Host invocation that resolves is never seen: the round goes on to the
  recursive call, which replaces the token before anything reads it. Two runs whose
  states differ in the tokens only, one of them without these calls of
  \<^verbatim>\<open>abort()\<close>, end in states that differ in the tokens only.
\<close>

lemma without_tool_abort_fields [simp]:
  "request (without_tool_abort r) = request r"
  "abortAtRequest (without_tool_abort r) = abortAtRequest r"
  "readEvents (without_tool_abort r) = readEvents r"
  "abortAtRead (without_tool_abort r) = abortAtRead r"
  "readOutcome (without_tool_abort r) = readOutcome r"
  "toolOutcome (without_tool_abort r) = toolOutcome r"
  "abortAtTool (without_tool_abort r) = (abortAtTool r \<and> \<not> resolves r)"
  by (simp_all add: without_tool_abort_def)

lemma erase_eqI:
  assumes "apiSchema a = apiSchema b" "settings a = settings b"
    "inputTokens a = inputTokens b" "outputTokens a = outputTokens b"
    "toolCallsWithResponses a = toolCallsWithResponses b"
    "currentRecursionDepth a = currentRecursionDepth b"
    "abortController a = abortController b" "controllers a = controllers b"
    "trace a = trace b"
  shows "erase a = erase b"
  using assms by (cases a, cases b) (simp add: erase_def)

lemma erase_eqD:
  assumes "erase a = erase b"
  shows "apiSchema a = apiSchema b" "settings a = settings b"
    "inputTokens a = inputTokens b" "outputTokens a = outputTokens b"
    "toolCallsWithResponses a = toolCallsWithResponses b"
    "currentRecursionDepth a = currentRecursionDepth b"
    "abortController a = abortController b" "controllers a = controllers b"
    "trace a = trace b"
    "a = b\<lparr>aborted := aborted a\<rparr>"
  using assms by (cases a, cases b, simp add: erase_def)+

lemma try_block_fst_indep:
  "fst (try_block mk (without_tool_abort r) ms (s\<lparr>aborted := f\<rparr>)) = fst (try_block mk r ms s)"
  by (simp add: try_block_def read_events_fold Let_def
        split: request_outcome.split read_outcome.split option.split tool_outcome.split prod.split)

lemma try_block_fields_indep:
  "trace (snd (try_block mk (without_tool_abort r) ms (s\<lparr>aborted := f\<rparr>))) =
     trace (snd (try_block mk r ms s))"
  "apiSchema (snd (try_block mk (without_tool_abort r) ms (s\<lparr>aborted := f\<rparr>))) =
     apiSchema (snd (try_block mk r ms s))"
  "settings (snd (try_block mk (without_tool_abort r) ms (s\<lparr>aborted := f\<rparr>))) =
     settings (snd (try_block mk r ms s))"
  "inputTokens (snd (try_block mk (without_tool_abort r) ms (s\<lparr>aborted := f\<rparr>))) =
     inputTokens (snd (try_block mk r ms s))"
  "outputTokens (snd (try_block mk (without_tool_abort r) ms (s\<lparr>aborted := f\<rparr>))) =
     outputTokens (snd (try_block mk r ms s))"
  "toolCallsWithResponses (snd (try_block mk (without_tool_abort r) ms (s\<lparr>aborted := f\<rparr>))) =
     toolCallsWithResponses (snd (try_block mk r ms s))"
  "abortController (snd (try_block mk (without_tool_abort r) ms (s\<lparr>aborted := f\<rparr>))) =
     abortController (snd (try_block mk r ms s))"
  "controllers (snd (try_block mk (without_tool_abort r) ms (s\<lparr>aborted := f\<rparr>))) =
     controllers (snd (try_block mk r ms s))"
  by (simp_all add: try_block_def read_events_fold Let_def
        split: request_outcome.split read_outcome.split option.split tool_outcome.split prod.split)

lemma try_block_erase:
  "erase (snd (try_block mk (without_tool_abort r) ms (s\<lparr>aborted := f\<rparr>))) =
   erase (snd (try_block mk r ms s))"
  by (rule erase_eqI) (simp_all add: try_block_fields_indep)

text \<open>
  When the \<^verbatim>\<open>try\<close> block throws, the round's own token is in the state it would
  be in with the call of \<^verbatim>\<open>abort()\<close> left in: a Tool Host that rejects keeps it.
\<close>

lemma try_block_flag_indep:
  "aborted s (abortController s) = f (abortController s) \<Longrightarrow>
   fst (try_block mk r ms s) = Threw reply err \<longrightarrow>
   aborted (snd (try_block mk (without_tool_abort r) ms (s\<lparr>aborted := f\<rparr>))) (abortController s) =
   aborted (snd (try_block mk r ms s)) (abortController s)"
  by (simp add: try_block_def read_events_fold Let_def resolves_def
        split: request_outcome.split read_outcome.split option.split tool_outcome.split prod.split)

lemma erase_top_level_reset:
  assumes "erase s' = erase s"
  shows "erase (top_level_reset s') = erase (top_level_reset s)"
  by (subst erase_eqD(10) [OF assms]) (simp add: top_level_reset_def erase_def)

lemma erase_enter:
  assumes "erase s' = erase s"
  shows "erase (enter s') = erase (enter s)"
  by (subst erase_eqD(10) [OF assms])
     (simp add: enter_def newAbortController_def emit_def erase_def)

lemma erase_finally_block:
  assumes "erase s' = erase s"
  shows "erase (finally_block s') = erase (finally_block s)"
  by (subst erase_eqD(10) [OF assms]) (simp add: finally_block_def emit_def erase_def)

lemma erase_catch_block:
  assumes "erase s' = erase s" and "aborted s' c = aborted s c"
  shows "erase (catch_block c reply err s') = erase (catch_block c reply err s)"
  using assms(2)
  by (subst erase_eqD(10) [OF assms(1)]) (simp add: catch_block_def Let_def emit_def erase_def)

lemma erase_ceiling:
  assumes "erase s' = erase s"
  shows "erase (emit (Complete (ceiling_payload s')) s') =
         erase (emit (Complete (ceiling_payload s)) s)"
  by (subst (1 2) erase_eqD(10) [OF assms]) (simp add: ceiling_payload_def emit_def erase_def)

lemma chat_erase:
  "erase s' = erase s \<Longrightarrow>
   erase (chat mk (\<lambda>i. without_tool_abort (env i)) ms s') = erase (chat mk env ms s)"
proof (induction mk env ms s arbitrary: s' rule: chat.induct)
  case (1 mk env ms s)
  note eq = \<open>erase s' = erase s\<close>
  have depth: "currentRecursionDepth s' = currentRecursionDepth s"
    by (rule erase_eqD(6) [OF eq])
  show ?case
  proof (cases "MAX_RECURSION_DEPTH \<le> currentRecursionDepth s")
    case True
    then have ceiling: "MAX_RECURSION_DEPTH \<le> currentRecursionDepth s'" using depth by simp
    show ?thesis
      by (simp only: chat_ceiling [OF True] chat_ceiling [OF ceiling] erase_ceiling [OF eq])
  next
    case False
    then have below: "currentRecursionDepth s < MAX_RECURSION_DEPTH" by simp
    then have below': "currentRecursionDepth s' < MAX_RECURSION_DEPTH" using depth by simp
    define a where "a = enter (top_level_reset s)"
    define a' where "a' = enter (top_level_reset s')"
    have ea: "erase a' = erase a"
      unfolding a_def a'_def by (rule erase_enter [OF erase_top_level_reset [OF eq]])
    have ca: "abortController a' = abortController a" by (rule erase_eqD(7) [OF ea])
    have fa: "aborted a (abortController a) = aborted a' (abortController a)"
      unfolding a_def a'_def by (simp add: erase_eqD(8) [OF eq])
    have a': "a' = a\<lparr>aborted := aborted a'\<rparr>" by (rule erase_eqD(10) [OF ea])
    define t where "t = try_block mk (env 0) ms a"
    define t' where "t' = try_block mk (without_tool_abort (env 0)) ms a'"
    have ft: "fst t' = fst t"
      unfolding t_def t'_def by (subst a') (rule try_block_fst_indep)
    have et: "erase (snd t') = erase (snd t)"
      unfolding t_def t'_def by (subst a') (rule try_block_erase)
    have flag: "aborted (snd t') (abortController a) = aborted (snd t) (abortController a)"
      if "fst t = Threw reply err" for reply err
      using try_block_flag_indep [where s = a and f = "aborted a'" and mk = mk and r = "env 0"
          and ms = ms and reply = reply and err = err, OF fa] that
      unfolding t_def t'_def by (subst a') simp
    have l: "chat mk (\<lambda>i. without_tool_abort (env i)) ms s' =
        finally_block
          (case fst t of
             Recurse msgs \<Rightarrow> chat mk (\<lambda>i. without_tool_abort (env (Suc i))) msgs (snd t')
           | Returned \<Rightarrow> snd t'
           | Threw reply err \<Rightarrow> catch_block (abortController a) reply err (snd t'))"
      unfolding chat_below [OF below'] ft [symmetric] ca [symmetric] t'_def a'_def by simp
    have r: "chat mk env ms s =
        finally_block
          (case fst t of
             Recurse msgs \<Rightarrow> chat mk (\<lambda>i. env (Suc i)) msgs (snd t)
           | Returned \<Rightarrow> snd t
           | Threw reply err \<Rightarrow> catch_block (abortController a) reply err (snd t))"
      unfolding chat_below [OF below] t_def a_def by simp
    show ?thesis
    proof (cases "fst t")
      case (Recurse msgs)
      have "erase (chat mk (\<lambda>i. without_tool_abort (env (Suc i))) msgs (snd t')) =
            erase (chat mk (\<lambda>i. env (Suc i)) msgs (snd t))"
        unfolding t_def a_def
      proof (rule "1.IH" [OF refl _ refl refl refl])
        show "\<not> MAX_RECURSION_DEPTH \<le> currentRecursionDepth (top_level_reset s)"
          using False by simp
        show "fst (try_block mk (env 0) ms (enter (top_level_reset s))) = Recurse msgs"
          using Recurse unfolding t_def a_def .
        show "erase (snd t') = erase (snd (try_block mk (env 0) ms (enter (top_level_reset s))))"
          using et unfolding t_def a_def .
      qed
      then show ?thesis unfolding l r Recurse try_result.case by (rule erase_finally_block)
    next
      case Returned
      show ?thesis unfolding l r Returned by (simp add: erase_finally_block [OF et])
    next
      case (Threw reply err)
      show ?thesis unfolding l r Threw
        by (simp add: erase_finally_block [OF erase_catch_block [OF et flag [OF Threw]]])
    qed
  qed
qed

lemma chat_events_without_tool_abort:
  "chat_events mk (\<lambda>i. without_tool_abort (env i)) ms s = chat_events mk env ms s"
  using erase_eqD(9) [OF chat_erase [OF refl, of mk env ms s]]
  by (simp add: chat_events_def)

text \<open>
  A round whose request, or whose stream, is cancelled by \<^verbatim>\<open>abort()\<close>, the
  request and the stream being cancellable.
\<close>

lemma chat_request_cancelled:
  assumes "abortAtRequest (env 0)"
      and "currentRecursionDepth s < MAX_RECURSION_DEPTH"
  shows "chat_events mk (\<lambda>i. cancellable err (env i)) ms s =
           [DepthIncremented, NetworkRequest ms, ErrorCallback err True,
            Complete (error_payload [] err s), DepthDecremented]"
proof -
  have "request (cancellable err (env 0)) = RequestRejected err"
       "abortAtRequest (cancellable err (env 0))"
    using assms(1) by (simp_all add: cancellable_def)
  then show ?thesis
    using chat_request_rejected [where env = "\<lambda>i. cancellable err (env i)" and err = err
        and s = s and mk = mk and ms = ms, OF _ assms(2)]
    by simp
qed

lemma chat_read_cancelled:
  assumes "\<not> abortAtRequest (env 0)" and "request (env 0) = Streaming"
      and "abortAtRead (env 0)"
      and "currentRecursionDepth s < MAX_RECURSION_DEPTH"
  shows "chat_events mk (\<lambda>i. cancellable err (env i)) ms s =
           [DepthIncremented, NetworkRequest ms] @ log_of (readEvents (env 0)) @
           [ErrorCallback err True,
            Complete (error_payload (chunks_of (readEvents (env 0))) err s), DepthDecremented]"
proof -
  have "request (cancellable err (env 0)) = Streaming"
       "readOutcome (cancellable err (env 0)) = ReadRejected err"
       "abortAtRead (cancellable err (env 0))"
       "readEvents (cancellable err (env 0)) = readEvents (env 0)"
    using assms(1,2,3) by (simp_all add: cancellable_def)
  then show ?thesis
    using chat_read_rejected [where env = "\<lambda>i. cancellable err (env i)" and err = err
        and s = s and mk = mk and ms = ms, OF _ _ assms(4)]
    by simp
qed

subsection \<open>The number of completion callbacks\<close>

text \<open>
  When no round lacks a body, every way out (terminal round, exception in the request,
  in the stream or in the Tool Host, depth ceiling) invokes the completion callback
  exactly once, whatever the depth at entry.
\<close>

lemma one_completion_unless_no_reader:
  assumes "\<forall>i. request (env i) \<noteq> NoBody"
  shows "length (completions (chat_events mk env ms s)) = 1"
  using assms
proof (induction mk env ms s rule: chat.induct)
  case (1 mk env ms s)
  show ?case
  proof (cases "MAX_RECURSION_DEPTH \<le> currentRecursionDepth s")
    case True
    then show ?thesis by (simp add: chat_ceiling chat_events_def)
  next
    case False
    define s2 where "s2 = enter (top_level_reset s)"
    define t where "t = try_block mk (env 0) ms s2"
    have below: "currentRecursionDepth s < MAX_RECURSION_DEPTH" using False by simp
    have unfold: "chat mk env ms s =
        finally_block (case fst t of
            Recurse msgs \<Rightarrow> chat mk (\<lambda>i. env (Suc i)) msgs (snd t)
          | Returned \<Rightarrow> snd t
          | Threw reply err \<Rightarrow> catch_block (abortController s2) reply err (snd t))"
      unfolding t_def s2_def by (rule chat_below [OF below])
    obtain tevs where tevs: "trace (snd t) = trace s2 @ NetworkRequest ms # tevs"
        "length (completions tevs) =
           (if fst t = Returned \<and> request (env 0) \<noteq> NoBody then 1 else 0)"
      using try_block_log [of mk "env 0" ms s2] unfolding t_def by blast
    have ts2: "trace s2 = trace s @ [DepthIncremented]" unfolding s2_def by simp
    have body: "request (env 0) \<noteq> NoBody" using "1.prems" by simp
    show ?thesis
    proof (cases "fst t")
      case (Recurse msgs)
      have "\<not> MAX_RECURSION_DEPTH \<le> currentRecursionDepth (top_level_reset s)"
        using False by simp
      moreover have "\<forall>i. request (env (Suc i)) \<noteq> NoBody" using "1.prems" by simp
      ultimately have ih:
        "length (completions (chat_events mk (\<lambda>i. env (Suc i)) msgs (snd t))) = 1"
        using "1.IH" [OF refl _ refl refl refl, of msgs] Recurse unfolding t_def s2_def by simp
      from chat_log [of mk "\<lambda>i. env (Suc i)" msgs "snd t"] obtain evs where
        evs: "trace (chat mk (\<lambda>i. env (Suc i)) msgs (snd t)) = trace (snd t) @ evs" by blast
      have "length (completions evs) = 1" using ih chat_events_eq [OF evs] by simp
      moreover have "trace (chat mk env ms s) =
          trace s @ (DepthIncremented # NetworkRequest ms # tevs @ evs @ [DepthDecremented])"
        by (simp add: unfold Recurse evs tevs ts2)
      ultimately show ?thesis
        using tevs(2) Recurse by (simp add: chat_events_def)
    next
      case Returned
      have "trace (chat mk env ms s) =
          trace s @ (DepthIncremented # NetworkRequest ms # tevs @ [DepthDecremented])"
        by (simp add: unfold Returned tevs ts2)
      then show ?thesis
        using tevs(2) Returned body by (simp add: chat_events_def)
    next
      case (Threw reply err)
      show ?thesis
        using tevs(2) Threw by (simp add: chat_events_def unfold tevs(1) ts2)
    qed
  qed
qed

subsection \<open>Token counts along a chain\<close>

text \<open>
  A top-level chain that ends in a terminal round, started with the counters at zero:
  the payload reports the sums over the rounds of the chain, and the counters are back
  at zero when the call returns.
\<close>

lemma token_accumulation:
  assumes rounds: "\<forall>i<n. tool_round (env i) (res i) (T i) (A i)"
      and terminal: "terminal_round (env n) fin"
      and below: "n < 10"
      and top: "currentRecursionDepth s = 0"
      and zero: "inputTokens s = 0" "outputTokens s = 0"
  shows "map p_inputTokens (completions (chat_events mk env ms s)) =
           [(\<Sum>i<n. reported (rr_inputTokens (res i))) + reported (rr_inputTokens fin)]"
    and "map p_outputTokens (completions (chat_events mk env ms s)) =
           [(\<Sum>i<n. reported (rr_outputTokens (res i))) + reported (rr_outputTokens fin)]"
    and "inputTokens (chat mk env ms s) = 0"
    and "outputTokens (chat mk env ms s) = 0"
proof -
  have nonneg: "0 \<le> currentRecursionDepth s" using top by simp
  have lt: "currentRecursionDepth s + int n < MAX_RECURSION_DEPTH"
    using top below by (simp add: MAX_RECURSION_DEPTH_def)
  note c = chain_to_terminal [OF rounds terminal nonneg lt, of mk ms]
  show "map p_inputTokens (completions (chat_events mk env ms s)) =
           [(\<Sum>i<n. reported (rr_inputTokens (res i))) + reported (rr_inputTokens fin)]"
    unfolding c(1) using zero by simp
  show "map p_outputTokens (completions (chat_events mk env ms s)) =
           [(\<Sum>i<n. reported (rr_outputTokens (res i))) + reported (rr_outputTokens fin)]"
    unfolding c(1) using zero by simp
  show "inputTokens (chat mk env ms s) = 0" by (rule c(2))
  show "outputTokens (chat mk env ms s) = 0" by (rule c(3))
qed

subsection \<open>Splitting at the separator\<close>

text \<open>A string without the separator, and the first occurrence of the separator.\<close>

lemma split_sep_without:
  "\<not> str_includes s ''--'' \<Longrightarrow> split_sep ''--'' cur s = [rev cur @ s]"
  by (induction s arbitrary: cur) simp_all

lemma split_sep_first:
  "\<not> str_includes (c @ ''-'') ''--'' \<Longrightarrow>
     split_sep ''--'' cur (c @ ''--'' @ rest) = (rev cur @ c) # split_sep ''--'' [] rest"
proof (induction c arbitrary: cur)
  case Nil
  show ?case by simp
next
  case (Cons x c)
  have no: "\<not> str_includes (c @ ''-'') ''--''" using Cons.prems by simp
  have "take 2 (x # c @ ''--'' @ rest) \<noteq> ''--''"
    using Cons.prems by (cases c) auto
  then show ?case
    using Cons.IH [OF no, of "x # cur"] by simp
qed

lemma split_sep_first_cons:
  "\<not> str_includes (c @ ''-'') ''--'' \<Longrightarrow>
     split_sep ''--'' cur (c @ CHR ''-'' # CHR ''-'' # rest) =
       (rev cur @ c) # split_sep ''--'' [] rest"
  using split_sep_first [of c cur rest] by simp

text \<open>
  A qualified name with one separator: the client is what precedes it and the tool name
  what follows it.
\<close>

lemma client_and_name_single_separator:
  "\<not> str_includes (c @ ''-'') ''--'' \<Longrightarrow> \<not> str_includes n ''--'' \<Longrightarrow>
     client_and_name (c @ ''--'' @ n) = (c, Some n)"
  by (simp add: client_and_name_def split_def split_sep_first_cons split_sep_without)

subsection \<open>Messages of the store\<close>

lemma getProp_update [simp]: "getProp (AList.update k v m) k = v"
  by (simp add: getProp_def update_conv')

lemma getProp_update_other [simp]: "k \<noteq> k' \<Longrightarrow> getProp (AList.update k' v m) k = getProp m k"
  by (simp add: getProp_def update_conv')

lemma isArray_toolCalls_per_spec [simp]: "isArray (toolCalls_per_spec parse v)"
  by (simp add: toolCalls_per_spec_def split: jsval.split sum.split)

lemma toolCalls_is_array_update [simp]:
  "toolCalls_is_array (AList.update ''toolCalls'' v m) = isArray v"
  by (simp add: toolCalls_is_array_def)

lemma with_toolCalls_array [simp]: "toolCalls_is_array (with_toolCalls parse m)"
  by (simp add: with_toolCalls_def)

lemma fetched_row_array [simp]: "toolCalls_is_array (fetched_row parse m)"
  by (simp add: fetched_row_def)

text \<open>
  \<^verbatim>\<open>processMessage\<close> does not throw, whatever \<^verbatim>\<open>JSON.parse\<close> does, and
  returns the message with the tool calls the spec describes.
\<close>

lemma processMessage_None:
  "processMessage parse None =
     Inr [(''id'', JStr []), (''chatId'', JStr []), (''toolCalls'', JArr []),
          (''severity'', JStr ''info'')]"
  by (simp add: processMessage_def)

lemma processMessage_Some: "processMessage parse (Some m) = Inr (with_toolCalls parse m)"
proof (cases "getProp m ''toolCalls''")
  case (JStr str)
  show ?thesis
  proof (cases "parse str")
    case (Inl parseError)
    with JStr show ?thesis
      by (simp add: processMessage_def with_toolCalls_def toolCalls_per_spec_def try_catch_def)
  next
    case (Inr parsed)
    with JStr show ?thesis
      by (cases parsed)
         (simp_all add: processMessage_def with_toolCalls_def toolCalls_per_spec_def try_catch_def)
  qed
qed (simp_all add: processMessage_def with_toolCalls_def toolCalls_per_spec_def try_catch_def)

lemma array_map_total: "array_map (\<lambda>x. Inr (g x)) xs = Inr (map g xs)"
  by (induction xs) simp_all

lemma fetch_callback:
  "(\<lambda>msg. if truthy (getProp msg ''toolCalls'') then processMessage parse (Some msg)
          else Inr (AList.update ''toolCalls'' (JArr []) msg)) =
   (\<lambda>msg. Inr (fetched_row parse msg))"
  by (rule ext) (simp add: processMessage_Some fetched_row_def with_toolCalls_def)

lemma fetchMessages_eq:
  "fetchMessages parse tempChatId rows chatId st =
     (if chatId = tempChatId then ([], st\<lparr>messages := []\<rparr>)
      else case rows of
             Inl err \<Rightarrow> ([], st)
           | Inr msgs \<Rightarrow>
               (map (fetched_row parse) msgs, st\<lparr>messages := map (fetched_row parse) msgs\<rparr>))"
  by (simp add: fetchMessages_def fetch_callback array_map_total split: sum.split)

lemma fetched_row_per_spec:
  assumes "parse [] = Inl err"
  shows "fetched_row parse m = with_toolCalls parse m"
  using assms
  by (cases "getProp m ''toolCalls''")
     (simp_all add: fetched_row_def with_toolCalls_def toolCalls_per_spec_def)

lemma createMessage_eq:
  "createMessage parse stringify msgId now inserted m st =
     (case inserted of
        Some err \<Rightarrow> Inl err
      | None \<Rightarrow>
          Inr (with_toolCalls parse (written_row stringify msgId now m),
               st\<lparr>messages := messages st @
                     [with_toolCalls parse (written_row stringify msgId now m)]\<rparr>))"
  by (simp add: createMessage_def processMessage_Some written_row_def Let_def split: option.split)

lemma created_toolCalls:
  "getProp (with_toolCalls parse (written_row stringify msgId now m)) ''toolCalls'' =
     toolCalls_per_spec parse
       (JStr (if truthy (getProp m ''toolCalls'') then stringify (getProp m ''toolCalls'')
              else ''[]''))"
  by (simp add: with_toolCalls_def written_row_def)

lemma created_round_trip:
  assumes "getProp m ''toolCalls'' = JArr xs" and "parse (stringify (JArr xs)) = Inr (JArr xs)"
  shows "getProp (with_toolCalls parse (written_row stringify msgId now m)) ''toolCalls'' = JArr xs"
  using assms by (simp add: with_toolCalls_def written_row_def toolCalls_per_spec_def)

lemma updateMessage_set_eq:
  "updateMessage_set parse msg st =
     Inr (case findIndex (\<lambda>m. getProp m ''id'' = getProp msg ''id'') (messages st) of
            None \<Rightarrow> st
          | Some index \<Rightarrow>
              st\<lparr>messages := (messages st)
                     [index := with_toolCalls parse (spread (messages st ! index) msg)]\<rparr>)"
  by (simp add: updateMessage_set_def processMessage_Some Let_def split: option.split)

lemma updated_arrays:
  assumes "\<forall>m \<in> set (messages st). toolCalls_is_array m"
      and "updateMessage_set parse msg st = Inr st'"
  shows "\<forall>m \<in> set (messages st'). toolCalls_is_array m"
proof (cases "findIndex (\<lambda>m. getProp m ''id'' = getProp msg ''id'') (messages st)")
  case None
  then show ?thesis using assms by (simp add: updateMessage_set_eq)
next
  case (Some index)
  have "set ((messages st)[index := with_toolCalls parse (spread (messages st ! index) msg)])
      \<subseteq> insert (with_toolCalls parse (spread (messages st ! index) msg)) (set (messages st))"
    by (rule set_update_subset_insert)
  then show ?thesis
    using assms Some by (auto simp: updateMessage_set_eq)
qed

section \<open>The claims\<close>

subsection \<open>C1: one completion callback per top-level call\<close>

text \<open>
  C1 at the missing reader. A top-level call whose response has status 200 and no body
  invokes the error callback (with \<open>aborted = False\<close>) and returns through the early
  \<^verbatim>\<open>return\<close>: the completion callback is not invoked at all, neither when this
  happens in the first round nor when it happens in a nested round after a tool call.
\<close>

theorem missing_reader_emits_no_completion:
  "chat_events tool_message (\<lambda>i. unreadable) [] fresh =
     [DepthIncremented, NetworkRequest [], ErrorCallback no_reader False, DepthDecremented] \<and>
   completions (chat_events tool_message (\<lambda>i. unreadable) [] fresh) = [] \<and>
   completions (chat_events tool_message then_unreadable [] fresh) = []"
proof -
  have nb: "request ((\<lambda>i. unreadable) 0) = NoBody" by (simp add: unreadable_def)
  have d0: "currentRecursionDepth fresh = 0" by (simp add: fresh_def new_service_def)
  then have lt: "currentRecursionDepth fresh < MAX_RECURSION_DEPTH"
    by (simp add: MAX_RECURSION_DEPTH_def)
  have e1: "chat_events tool_message (\<lambda>i. unreadable) [] fresh =
     [DepthIncremented, NetworkRequest [], ErrorCallback no_reader False, DepthDecremented]"
    by (rule chat_events_eq) (simp add: chat_no_body(1) [where env = "\<lambda>i. unreadable", OF nb lt])
  have r0: "\<forall>i<1. tool_round (then_unreadable i) ((\<lambda>i. asks_for search) i) ((\<lambda>i. search) i)
              ((\<lambda>i. JStr ''found'') i)"
    by (simp add: then_unreadable_def tool_round_def asking_def asks_for_def)
  from tool_chain [OF r0, of fresh tool_message "[]"] d0
  obtain s' where s':
    "chat tool_message then_unreadable [] fresh =
       (finally_block ^^ 1) (chat tool_message (\<lambda>i. then_unreadable (i + 1))
          (conversation tool_message [] (\<lambda>i. search) (\<lambda>i. JStr ''found'') 1) s')"
    "currentRecursionDepth s' = currentRecursionDepth fresh + int 1"
    "trace s' = trace fresh @
       concat (map (round_events tool_message [] then_unreadable (\<lambda>i. search) (\<lambda>i. JStr ''found'')) [0..<1])"
    by (auto simp: MAX_RECURSION_DEPTH_def)
  have nb': "request ((\<lambda>i. then_unreadable (i + 1)) 0) = NoBody"
    by (simp add: then_unreadable_def unreadable_def)
  have lt': "currentRecursionDepth s' < MAX_RECURSION_DEPTH"
    using s'(2) d0 by (simp add: MAX_RECURSION_DEPTH_def)
  have "trace (chat tool_message then_unreadable [] fresh) =
      trace s' @ [DepthIncremented,
        NetworkRequest (conversation tool_message [] (\<lambda>i. search) (\<lambda>i. JStr ''found'') 1),
        ErrorCallback no_reader False, DepthDecremented] @ replicate 1 DepthDecremented"
    unfolding s'(1) finally_pow_fields(5)
      chat_no_body(1) [where env = "\<lambda>i. then_unreadable (i + 1)", OF nb' lt']
    by simp
  then have "completions (trace (chat tool_message then_unreadable [] fresh)) = []"
    by (simp add: s'(3) fresh_def new_service_def)
  then have e2: "completions (chat_events tool_message then_unreadable [] fresh) = []"
    by (simp add: chat_events_def fresh_def new_service_def)
  show ?thesis using e1 e2 by simp
qed

subsection \<open>C2: the depth ceiling\<close>

text \<open>
  C2. A top-level call whose first ten rounds all end in a tool call answered by the Tool
  Host makes exactly ten network requests (the ceiling, \<open>MAX_RECURSION_DEPTH = 10\<close>) and
  then, in the eleventh invocation, only invokes the completion callback, with error code
  500 and the message naming the ceiling: the log of the whole call is the ten rounds, the
  completion, and the ten pending decrements, so no request is made by the invocation
  that hits the ceiling. Whatever the rounds are, a top-level call makes at most ten
  network requests.
\<close>

theorem chat_depth_ceiling:
  assumes rounds: "\<forall>i<10. tool_round (env i) (res i) (T i) (A i)"
      and top: "currentRecursionDepth s = 0"
  shows "MAX_RECURSION_DEPTH = 10 \<and>
         chat_events mk env ms s =
           concat (map (round_events mk ms env T A) [0..<10]) @
           Complete \<lparr> content = ''Maximum recursion depth reached for tool calls.'',
                      toolCalls = map (\<lambda>i. call (T i) (A i)) [0..<10],
                      p_inputTokens = inputTokens s + (\<Sum>i<10. reported (rr_inputTokens (res i))),
                      p_outputTokens = outputTokens s + (\<Sum>i<10. reported (rr_outputTokens (res i))),
                      error = Some \<lparr> code = 500,
                        message = ''Maximum recursion depth (10) reached for tool calls.'' \<rparr> \<rparr>
           # replicate 10 DepthDecremented \<and>
         requests (chat_events mk env ms s) = map (conversation mk ms T A) [0..<10] \<and>
         map error (completions (chat_events mk env ms s)) =
           [Some \<lparr> code = 500,
                   message = ''Maximum recursion depth (10) reached for tool calls.'' \<rparr>] \<and>
         (\<forall>env' ms'. length (requests (chat_events mk env' ms' s)) \<le> 10)"
proof -
  have nonneg: "0 \<le> currentRecursionDepth s" using top by simp
  have ceiling: "currentRecursionDepth s + int 10 = MAX_RECURSION_DEPTH"
    using top by (simp add: MAX_RECURSION_DEPTH_def)
  have ev: "chat_events mk env ms s =
           concat (map (round_events mk ms env T A) [0..<10]) @
           Complete \<lparr> content = ''Maximum recursion depth reached for tool calls.'',
                      toolCalls = map (\<lambda>i. call (T i) (A i)) [0..<10],
                      p_inputTokens = inputTokens s + (\<Sum>i<10. reported (rr_inputTokens (res i))),
                      p_outputTokens = outputTokens s + (\<Sum>i<10. reported (rr_outputTokens (res i))),
                      error = Some \<lparr> code = 500,
                        message = ''Maximum recursion depth (10) reached for tool calls.'' \<rparr> \<rparr>
           # replicate 10 DepthDecremented"
    using chain_to_ceiling(1) [OF rounds nonneg ceiling, of mk ms] top
    by (simp add: top_level_reset_def)
  have req: "requests (chat_events mk env ms s) = map (conversation mk ms T A) [0..<10]"
    unfolding ev by simp
  have com: "map error (completions (chat_events mk env ms s)) =
           [Some \<lparr> code = 500,
                   message = ''Maximum recursion depth (10) reached for tool calls.'' \<rparr>]"
    unfolding ev by simp
  have bound: "length (requests (chat_events mk env' ms' s)) \<le> 10" for env' ms'
  proof -
    from chat_log [of mk env' ms' s] obtain evs where
      "trace (chat mk env' ms' s) = trace s @ evs"
      "length (requests evs) \<le> nat (MAX_RECURSION_DEPTH - currentRecursionDepth s)"
      by blast
    then show ?thesis
      using top by (simp add: chat_events_eq MAX_RECURSION_DEPTH_def)
  qed
  show ?thesis
    using ev req com bound by (simp add: MAX_RECURSION_DEPTH_def)
qed

theorem chat_depth_ceiling_witness:
  "tool_round (asking search JNull) (asks_for search) search JNull \<and>
   currentRecursionDepth fresh = 0 \<and>
   length (requests (chat_events tool_message (\<lambda>i. asking search JNull) [] fresh)) = 10 \<and>
   map error (completions (chat_events tool_message (\<lambda>i. asking search JNull) [] fresh)) =
     [Some \<lparr> code = 500, message = ''Maximum recursion depth (10) reached for tool calls.'' \<rparr>] \<and>
   map p_inputTokens (completions (chat_events tool_message (\<lambda>i. asking search JNull) [] fresh)) = [10]"
proof -
  have h0: "tool_round (asking search JNull) (asks_for search) search JNull"
    by (simp add: tool_round_def asking_def asks_for_def)
  then have h1: "\<forall>i<10. tool_round ((\<lambda>i. asking search JNull) i) ((\<lambda>i. asks_for search) i)
              ((\<lambda>i. search) i) ((\<lambda>i. JNull) i)"
    by simp
  have h2: "currentRecursionDepth fresh = 0"
    by (simp add: fresh_def new_service_def)
  note c = chat_depth_ceiling [OF h1 h2, of tool_message "[]"]
  have "inputTokens fresh = 0" by (simp add: fresh_def new_service_def)
  then show ?thesis
    using h0 h2 c by (simp add: asks_for_def reported_def)
qed

subsection \<open>C3: readiness\<close>

text \<open>
  C3 (amended). \<^verbatim>\<open>isReady\<close> is false exactly when one of model, base and key is
  required by the provider's schema and missing (absent or empty) in the settings.
  \<^verbatim>\<open>chat\<close> does not call it: whatever the settings are, an invocation below the
  depth ceiling starts by incrementing the depth counter and issuing the network request
  (and one at the ceiling only invokes the completion callback). The check is left to the
  caller.
\<close>

theorem isReady_required_settings:
  "isReady s =
     (\<not> (''model'' \<in> set (apiSchema s) \<and> missing (model (settings s))) \<and>
      \<not> (''base'' \<in> set (apiSchema s) \<and> missing (base (settings s))) \<and>
      \<not> (''key'' \<in> set (apiSchema s) \<and> missing (key (settings s)))) \<and>
   (if currentRecursionDepth s < MAX_RECURSION_DEPTH
    then take 2 (chat_events mk env ms s) = [DepthIncremented, NetworkRequest ms]
    else chat_events mk env ms s = [Complete (ceiling_payload s)])"
proof -
  have ready: "isReady s =
     (\<not> (''model'' \<in> set (apiSchema s) \<and> missing (model (settings s))) \<and>
      \<not> (''base'' \<in> set (apiSchema s) \<and> missing (base (settings s))) \<and>
      \<not> (''key'' \<in> set (apiSchema s) \<and> missing (key (settings s))))"
    unfolding isReady_def by simp
  from chat_log [of mk env ms s] obtain evs where evs:
    "trace (chat mk env ms s) = trace s @ evs"
    "if MAX_RECURSION_DEPTH \<le> currentRecursionDepth s
     then evs = [Complete (ceiling_payload s)]
     else \<exists>mid. evs = DepthIncremented # NetworkRequest ms # mid @ [DepthDecremented]"
    by blast
  have ev: "chat_events mk env ms s = evs" by (rule chat_events_eq [OF evs(1)])
  have "if currentRecursionDepth s < MAX_RECURSION_DEPTH
    then take 2 (chat_events mk env ms s) = [DepthIncremented, NetworkRequest ms]
    else chat_events mk env ms s = [Complete (ceiling_payload s)]"
    using evs(2) unfolding ev by (auto simp: not_le [symmetric])
  with ready show ?thesis by blast
qed

text \<open>
  C3, as stated, on a service that is not ready. The schema requires model, base and key,
  the key is missing, \<^verbatim>\<open>isReady\<close> is false, and \<^verbatim>\<open>chat\<close> issues the network
  request all the same and completes without any error.
\<close>

theorem readiness_is_not_checked_by_chat:
  "set (apiSchema without_key) = {''model'', ''base'', ''key''} \<and>
   missing (key (settings without_key)) \<and>
   \<not> isReady without_key \<and>
   chat_events tool_message (\<lambda>i. answering ''hello'' 5 7) [] without_key =
     [DepthIncremented, NetworkRequest [], Reading ''hello'',
      Complete \<lparr> content = ''hello'', toolCalls = [], p_inputTokens = 5, p_outputTokens = 7,
                 error = None \<rparr>,
      DepthDecremented]"
proof -
  have h2: "\<forall>i<(0::nat). tool_round ((\<lambda>i. answering ''hello'' 5 7) i) ((\<lambda>i. says 5 7) i)
              ((\<lambda>i. search) i) ((\<lambda>i. JNull) i)"
    by simp
  have h3: "terminal_round ((\<lambda>i. answering ''hello'' 5 7) 0) (says 5 7)"
    by (simp add: terminal_round_def answering_def says_def)
  have f: "currentRecursionDepth without_key = 0" "inputTokens without_key = 0"
      "outputTokens without_key = 0" "toolCallsWithResponses without_key = []"
    by (simp_all add: without_key_def new_service_def)
  have nonneg: "0 \<le> currentRecursionDepth without_key" using f by simp
  have lt: "currentRecursionDepth without_key + int 0 < MAX_RECURSION_DEPTH"
    using f by (simp add: MAX_RECURSION_DEPTH_def)
  note d = chain_to_terminal(1) [where env = "\<lambda>i. answering ''hello'' 5 7" and n = 0
      and res = "\<lambda>i. says 5 7" and T = "\<lambda>i. search" and A = "\<lambda>i. JNull"
      and fin = "says 5 7" and s = without_key and mk = tool_message and ms = "[]",
      OF h2 h3 nonneg lt]
  have ev: "chat_events tool_message (\<lambda>i. answering ''hello'' 5 7) [] without_key =
     [DepthIncremented, NetworkRequest [], Reading ''hello'',
      Complete \<lparr> content = ''hello'', toolCalls = [], p_inputTokens = 5, p_outputTokens = 7,
                 error = None \<rparr>,
      DepthDecremented]"
    unfolding d using f
    by (simp add: answering_def says_def reported_def log_of_def chunks_of_def top_level_reset_def)
  have cfg: "set (apiSchema without_key) = {''model'', ''base'', ''key''}"
      "missing (key (settings without_key))" "\<not> isReady without_key"
    by (auto simp: without_key_def new_service_def all_required_def missing_def isReady_def)
  show ?thesis using ev cfg by simp
qed

subsection \<open>C4: the token counters\<close>

text \<open>
  C4 at the depth ceiling. A top-level call of ten tool rounds, each reporting one input
  and two output tokens, ends on the ceiling path with a payload reporting 10 and 20.
  That path does not reset the counters: they still stand at 10 and 20 when the call has
  returned (depth counter back at 0), and the next, unrelated top-level call, whose only
  round reports 5 and 7, reports 15 and 27.
\<close>

theorem counters_survive_the_ceiling:
  "map p_inputTokens (completions (chat_events tool_message (\<lambda>i. asking search JNull) [] fresh)) = [10] \<and>
   map p_outputTokens (completions (chat_events tool_message (\<lambda>i. asking search JNull) [] fresh)) = [20] \<and>
   inputTokens after_ceiling = 10 \<and>
   outputTokens after_ceiling = 20 \<and>
   currentRecursionDepth after_ceiling = 0 \<and>
   map p_inputTokens (completions (chat_events tool_message (\<lambda>i. answering ''hello'' 5 7) [] after_ceiling)) = [15] \<and>
   map p_outputTokens (completions (chat_events tool_message (\<lambda>i. answering ''hello'' 5 7) [] after_ceiling)) = [27]"
proof -
  have h1: "\<forall>i<10. tool_round ((\<lambda>i. asking search JNull) i) ((\<lambda>i. asks_for search) i)
              ((\<lambda>i. search) i) ((\<lambda>i. JNull) i)"
    by (simp add: tool_round_def asking_def asks_for_def)
  have f: "currentRecursionDepth fresh = 0" "inputTokens fresh = 0" "outputTokens fresh = 0"
    by (simp_all add: fresh_def new_service_def)
  have nonneg: "0 \<le> currentRecursionDepth fresh" using f by simp
  have ceiling: "currentRecursionDepth fresh + int 10 = MAX_RECURSION_DEPTH"
    using f by (simp add: MAX_RECURSION_DEPTH_def)
  note c = chain_to_ceiling [OF h1 nonneg ceiling, of tool_message "[]"]
  have p1: "map p_inputTokens (completions (chat_events tool_message (\<lambda>i. asking search JNull) [] fresh)) = [10]"
    unfolding c(1) using f by (simp add: asks_for_def reported_def)
  have p2: "map p_outputTokens (completions (chat_events tool_message (\<lambda>i. asking search JNull) [] fresh)) = [20]"
    unfolding c(1) using f by (simp add: asks_for_def reported_def)
  have a1: "inputTokens after_ceiling = 10"
    unfolding after_ceiling_def c(2) using f by (simp add: asks_for_def reported_def)
  have a2: "outputTokens after_ceiling = 20"
    unfolding after_ceiling_def c(3) using f by (simp add: asks_for_def reported_def)
  have a3: "currentRecursionDepth after_ceiling = 0"
    unfolding after_ceiling_def using chat_log [of tool_message "\<lambda>i. asking search JNull" "[]" fresh] f
    by simp
  have h2: "\<forall>i<(0::nat). tool_round ((\<lambda>i. answering ''hello'' 5 7) i) ((\<lambda>i. says 5 7) i)
              ((\<lambda>i. search) i) ((\<lambda>i. JNull) i)"
    by simp
  have h3: "terminal_round ((\<lambda>i. answering ''hello'' 5 7) 0) (says 5 7)"
    by (simp add: terminal_round_def answering_def says_def)
  have nonneg': "0 \<le> currentRecursionDepth after_ceiling" using a3 by simp
  have lt: "currentRecursionDepth after_ceiling + int 0 < MAX_RECURSION_DEPTH"
    using a3 by (simp add: MAX_RECURSION_DEPTH_def)
  note d = chain_to_terminal [where env = "\<lambda>i. answering ''hello'' 5 7" and n = 0
      and res = "\<lambda>i. says 5 7" and T = "\<lambda>i. search" and A = "\<lambda>i. JNull"
      and fin = "says 5 7" and s = after_ceiling and mk = tool_message and ms = "[]",
      OF h2 h3 nonneg' lt]
  have q1: "map p_inputTokens (completions (chat_events tool_message (\<lambda>i. answering ''hello'' 5 7) [] after_ceiling)) = [15]"
    unfolding d(1) using a1 by (simp add: says_def reported_def)
  have q2: "map p_outputTokens (completions (chat_events tool_message (\<lambda>i. answering ''hello'' 5 7) [] after_ceiling)) = [27]"
    unfolding d(1) using a2 by (simp add: says_def reported_def)
  show ?thesis using p1 p2 a1 a2 a3 q1 q2 by simp
qed

subsection \<open>C5: the order of the tool calls\<close>



subsection \<open>C6: a tool call that fails\<close>

text \<open>
  C6 (amended). \<^verbatim>\<open>chat\<close> does not look at what the Tool Host returns: a failure
  value \<open>failed\<close> returned on the result channel is recorded as the response of the tool
  call, the tool messages made from it are appended to the conversation, and \<^verbatim>\<open>chat\<close>
  calls itself with that conversation. Provided the round is not the last one the depth
  ceiling allows, the next thing the orchestrator does after the Tool Host returns is to
  issue the next network request with the extended conversation: no completion and no
  error callback of the orchestrator's own comes in between.
\<close>

theorem tool_failure_continues:
  assumes round: "tool_round (env 0) res t failed"
      and room: "currentRecursionDepth s + 1 < MAX_RECURSION_DEPTH"
  shows "\<exists>s' rest.
           chat mk env ms s =
             finally_block (chat mk (\<lambda>i. env (Suc i)) (ms @ mk t failed) s') \<and>
           toolCallsWithResponses s' =
             toolCallsWithResponses (top_level_reset s) @
               [\<lparr> name = t_name t, args = t_args t, response = failed \<rparr>] \<and>
           chat_events mk env ms s =
             [DepthIncremented, NetworkRequest ms] @ log_of (readEvents (env 0)) @
             [CallTool (fst (client_and_name (t_name t))) (snd (client_and_name (t_name t)))
                (t_args t),
              DepthIncremented, NetworkRequest (ms @ mk t failed)] @ rest"
  by (rule chat_next_request [where env = env, OF round room])

theorem tool_failure_continues_witness:
  "tool_round (fails_then_answers 0) (asks_for search) search failure \<and>
   currentRecursionDepth fresh + 1 < MAX_RECURSION_DEPTH \<and>
   take 5 (chat_events tool_message fails_then_answers [] fresh) =
     [DepthIncremented, NetworkRequest [],
      CallTool ''files'' (Some ''search'') (JStr ''report''),
      DepthIncremented, NetworkRequest [\<lparr> role = ''tool'', m_content = failure \<rparr>]]"
proof -
  have h: "tool_round (fails_then_answers 0) (asks_for search) search failure"
    by (simp add: fails_then_answers_def tool_round_def asking_def asks_for_def)
  have d: "currentRecursionDepth fresh + 1 < MAX_RECURSION_DEPTH"
    by (simp add: fresh_def new_service_def MAX_RECURSION_DEPTH_def)
  from tool_failure_continues [where env = fails_then_answers and mk = tool_message and ms = "[]",
      OF h d] obtain rest where
    "chat_events tool_message fails_then_answers [] fresh =
       [DepthIncremented, NetworkRequest []] @ log_of (readEvents (fails_then_answers 0)) @
       [CallTool (fst (client_and_name (t_name search))) (snd (client_and_name (t_name search)))
          (t_args search),
        DepthIncremented, NetworkRequest ([] @ tool_message search failure)] @ rest"
    by blast
  moreover have "client_and_name (t_name search) = (''files'', Some ''search'')"
    by (simp add: search_def client_and_name_def split_def)
  moreover have "readEvents (fails_then_answers 0) = []"
    by (simp add: fails_then_answers_def asking_def)
  moreover have "t_args search = JStr ''report''" by (simp add: search_def)
  ultimately have "take 5 (chat_events tool_message fails_then_answers [] fresh) =
     [DepthIncremented, NetworkRequest [],
      CallTool ''files'' (Some ''search'') (JStr ''report''),
      DepthIncremented, NetworkRequest [\<lparr> role = ''tool'', m_content = failure \<rparr>]]"
    by (simp add: log_of_def tool_message_def)
  with h d show ?thesis by simp
qed

text \<open>
  C6, as stated, at the ceiling. In a chain whose tool calls all fail, the tenth failure
  is recorded like the others, but no round-trip follows it: the recursive call hits the
  depth ceiling and the chain ends with the orchestrator's error 500 after ten requests.
\<close>

theorem tenth_tool_failure_ends_the_chain:
  "tool_round (asking search failure) (asks_for search) search failure \<and>
   length (requests (chat_events tool_message (\<lambda>i. asking search failure) [] fresh)) = 10 \<and>
   map toolCalls (completions (chat_events tool_message (\<lambda>i. asking search failure) [] fresh)) =
     [replicate 10 \<lparr> name = ''files--search'', args = JStr ''report'', response = failure \<rparr>] \<and>
   map error (completions (chat_events tool_message (\<lambda>i. asking search failure) [] fresh)) =
     [Some \<lparr> code = 500, message = ''Maximum recursion depth (10) reached for tool calls.'' \<rparr>]"
proof -
  have h0: "tool_round (asking search failure) (asks_for search) search failure"
    by (simp add: tool_round_def asking_def asks_for_def)
  then have h1: "\<forall>i<10. tool_round ((\<lambda>i. asking search failure) i) ((\<lambda>i. asks_for search) i)
              ((\<lambda>i. search) i) ((\<lambda>i. failure) i)"
    by simp
  have f: "currentRecursionDepth fresh = 0" "toolCallsWithResponses fresh = []"
    by (simp_all add: fresh_def new_service_def)
  have nonneg: "0 \<le> currentRecursionDepth fresh" using f by simp
  have ceiling: "currentRecursionDepth fresh + int 10 = MAX_RECURSION_DEPTH"
    using f by (simp add: MAX_RECURSION_DEPTH_def)
  note c = chain_to_ceiling(1) [OF h1 nonneg ceiling, of tool_message "[]"]
  have calls: "map (\<lambda>i. call search failure) [0..<10] =
      replicate 10 \<lparr> name = ''files--search'', args = JStr ''report'', response = failure \<rparr>"
    by (simp add: map_replicate_const call_def search_def)
  show ?thesis
    unfolding c using h0 f calls by (simp add: top_level_reset_def)
qed

subsection \<open>C7: the qualified tool name\<close>

text \<open>
  C7 on a tool name that contains the separator. The pending tool call is named
  \<^verbatim>\<open>files--read--all\<close>: client \<^verbatim>\<open>files\<close>, tool name \<^verbatim>\<open>read--all\<close>.
  The split cuts the name at every separator and the destructuring keeps the first two
  pieces, so the Tool Host is invoked with the tool name \<^verbatim>\<open>read\<close>, not with
  \<^verbatim>\<open>read--all\<close>, the whole of what follows the first separator; the tool call
  recorded for the completion keeps the full qualified name.
\<close>

theorem tool_name_cut_at_second_separator:
  "t_name read_all = ''files--read--all'' \<and>
   client_and_name ''files--read--all'' = (''files'', Some ''read'') \<and>
   snd (client_and_name ''files--read--all'') \<noteq> Some ''read--all'' \<and>
   chat_events tool_message reads_all [] fresh =
     [DepthIncremented, NetworkRequest [],
      CallTool ''files'' (Some ''read'') (JStr ''notes''),
      DepthIncremented, NetworkRequest [\<lparr> role = ''tool'', m_content = JStr ''text'' \<rparr>],
      Reading ''done'',
      Complete \<lparr> content = ''done'',
                 toolCalls = [\<lparr> name = ''files--read--all'', args = JStr ''notes'',
                                response = JStr ''text'' \<rparr>],
                 p_inputTokens = 6, p_outputTokens = 9, error = None \<rparr>,
      DepthDecremented, DepthDecremented]"
proof -
  have f: "currentRecursionDepth fresh = 0" "inputTokens fresh = 0" "outputTokens fresh = 0"
      "toolCallsWithResponses fresh = []"
    by (simp_all add: fresh_def new_service_def)
  have r0: "tool_round (reads_all 0) (asks_for read_all) read_all (JStr ''text'')"
      "readEvents (reads_all 0) = []"
    by (simp_all add: reads_all_def tool_round_def asking_def asks_for_def)
  then have h1: "\<forall>i<1. tool_round (reads_all i) ((\<lambda>i. asks_for read_all) i)
      ((\<lambda>i. read_all) i) ((\<lambda>i. JStr ''text'') i)"
    by simp
  have h2: "terminal_round (reads_all 1) (says 5 7)"
      "readEvents (reads_all 1) = [Progress ''done'']"
    by (simp_all add: reads_all_def terminal_round_def answering_def says_def)
  have nonneg: "0 \<le> currentRecursionDepth fresh" using f by simp
  have lt: "currentRecursionDepth fresh + int 1 < MAX_RECURSION_DEPTH"
    using f by (simp add: MAX_RECURSION_DEPTH_def)
  note c = chain_to_terminal(1) [where env = reads_all and mk = tool_message
      and ms = "[]", OF h1 h2(1) nonneg lt]
  have n: "client_and_name ''files--read--all'' = (''files'', Some ''read'')"
    by (simp add: client_and_name_def split_def)
  have t: "t_name read_all = ''files--read--all''" by (simp add: read_all_def)
  have ev: "chat_events tool_message reads_all [] fresh =
     [DepthIncremented, NetworkRequest [],
      CallTool ''files'' (Some ''read'') (JStr ''notes''),
      DepthIncremented, NetworkRequest [\<lparr> role = ''tool'', m_content = JStr ''text'' \<rparr>],
      Reading ''done'',
      Complete \<lparr> content = ''done'',
                 toolCalls = [\<lparr> name = ''files--read--all'', args = JStr ''notes'',
                                response = JStr ''text'' \<rparr>],
                 p_inputTokens = 6, p_outputTokens = 9, error = None \<rparr>,
      DepthDecremented, DepthDecremented]"
    unfolding c using r0(2) h2(2) f
    by (simp add: round_events_def conversation_def call_def read_all_def n log_of_def chunks_of_def
          tool_message_def asks_for_def says_def reported_def top_level_reset_def)
  show ?thesis using t n ev by simp
qed

subsection \<open>C8: the depth counter\<close>

text \<open>
  C8 (amended). Every invocation of \<^verbatim>\<open>chat\<close> returns with the depth counter at
  its value at entry, and over the whole invocation (the nested ones included) the
  decrements are as many as the increments and as the network requests. An invocation
  entered below the ceiling increments the counter once, first of all, and decrements it
  once, last of all, on every way out of the \<^verbatim>\<open>try\<close> block (recursion, terminal
  round, missing reader, exception); what lies between is balanced. An invocation entered
  at the ceiling only invokes the completion callback: it neither increments nor
  decrements.
\<close>

theorem depth_counter_restored:
  "currentRecursionDepth (chat mk env ms s) = currentRecursionDepth s \<and>
   decrements (chat_events mk env ms s) = increments (chat_events mk env ms s) \<and>
   decrements (chat_events mk env ms s) = length (requests (chat_events mk env ms s)) \<and>
   (if MAX_RECURSION_DEPTH \<le> currentRecursionDepth s
    then chat_events mk env ms s = [Complete (ceiling_payload s)]
    else \<exists>mid. chat_events mk env ms s =
                 DepthIncremented # NetworkRequest ms # mid @ [DepthDecremented] \<and>
               increments mid = decrements mid)"
proof -
  from chat_log [of mk env ms s] obtain evs where evs:
    "currentRecursionDepth (chat mk env ms s) = currentRecursionDepth s"
    "trace (chat mk env ms s) = trace s @ evs"
    "increments evs = decrements evs"
    "decrements evs = length (requests evs)"
    "if MAX_RECURSION_DEPTH \<le> currentRecursionDepth s
     then evs = [Complete (ceiling_payload s)]
     else \<exists>mid. evs = DepthIncremented # NetworkRequest ms # mid @ [DepthDecremented]"
    by blast
  have ev: "chat_events mk env ms s = evs" by (rule chat_events_eq [OF evs(2)])
  show ?thesis
  proof (cases "MAX_RECURSION_DEPTH \<le> currentRecursionDepth s")
    case True
    then show ?thesis using evs ev by simp
  next
    case False
    with evs(5) obtain mid where
      mid: "evs = DepthIncremented # NetworkRequest ms # mid @ [DepthDecremented]" by auto
    have "increments mid = decrements mid" using evs(3) unfolding mid by simp
    then show ?thesis using evs(1,3,4) ev mid False by simp
  qed
qed

text \<open>
  C8, as stated, at the ceiling. An invocation entered with the depth counter at the
  ceiling returns before the increment and outside the \<^verbatim>\<open>try\<close>: it decrements the
  counter zero times, not once.
\<close>

theorem ceiling_path_does_not_decrement:
  "currentRecursionDepth at_ceiling = 10 \<and>
   chat_events tool_message (\<lambda>i. asking search JNull) [] at_ceiling =
     [Complete (ceiling_payload at_ceiling)] \<and>
   decrements (chat_events tool_message (\<lambda>i. asking search JNull) [] at_ceiling) = 0 \<and>
   currentRecursionDepth (chat tool_message (\<lambda>i. asking search JNull) [] at_ceiling) = 10"
proof -
  have d: "currentRecursionDepth at_ceiling = 10"
    by (simp add: at_ceiling_def)
  then have c: "MAX_RECURSION_DEPTH \<le> currentRecursionDepth at_ceiling"
    by (simp add: MAX_RECURSION_DEPTH_def)
  show ?thesis
    using d by (simp add: chat_ceiling [OF c] chat_events_def)
qed

subsection \<open>C9: cancellation\<close>

text \<open>
  C9 (amended). For every round-trip, two of the three suspension points, awaiting the
  HTTP response and awaiting the chunks of the streamed body, are cancellable by
  \<^verbatim>\<open>abort()\<close>; the third, awaiting the Tool Host's result, is not.

  \<^verbatim>\<open>makeRequest\<close> hands \<^verbatim>\<open>fetch\<close> the signal of the service's current
  controller, which is the one \<^verbatim>\<open>abort()\<close> cancels and which every invocation
  of \<^verbatim>\<open>chat\<close> that makes a round-trip replaces by a fresh one before its request.
  With a request and a stream that are cancellable, an invocation entered in any state
  below the ceiling (a top-level or a recursive one) does not go on once the token is
  cancelled: when \<^verbatim>\<open>abort()\<close> is called while the request is awaited, or while
  the stream is read, \<^verbatim>\<open>chat\<close> invokes the error callback with
  \<open>aborted = True\<close> and the completion callback with the text read so far, and makes
  no Tool Host invocation and no further request.

  The Tool Host is invoked with client, name and arguments; it is not given the signal.
  A call of \<^verbatim>\<open>abort()\<close> while the Tool Host is awaited does not cancel anything
  when the Tool Host resolves: in every state and whatever the rounds are,
  \<^verbatim>\<open>chat\<close> invokes the same callbacks, issues the same requests and makes the
  same Tool Host invocations as it does without that call of \<^verbatim>\<open>abort()\<close>.
\<close>

theorem cancellation_points:
  "fetch_signal (makeRequest payload s) = abortController s \<and>
   aborted (abort s) (fetch_signal (makeRequest payload s)) \<and>
   \<not> aborted (enter s) (abortController (enter s)) \<and>
   (abortAtRequest (env 0) \<and> currentRecursionDepth s < MAX_RECURSION_DEPTH \<longrightarrow>
      chat_events mk (\<lambda>i. cancellable err (env i)) ms s =
        [DepthIncremented, NetworkRequest ms, ErrorCallback err True,
         Complete (error_payload [] err s), DepthDecremented]) \<and>
   (\<not> abortAtRequest (env 0) \<and> request (env 0) = Streaming \<and> abortAtRead (env 0) \<and>
    currentRecursionDepth s < MAX_RECURSION_DEPTH \<longrightarrow>
      chat_events mk (\<lambda>i. cancellable err (env i)) ms s =
        [DepthIncremented, NetworkRequest ms] @ log_of (readEvents (env 0)) @
        [ErrorCallback err True,
         Complete (error_payload (chunks_of (readEvents (env 0))) err s), DepthDecremented]) \<and>
   chat_events mk (\<lambda>i. without_tool_abort (env i)) ms s = chat_events mk env ms s"
proof (intro conjI impI)
  show "fetch_signal (makeRequest payload s) = abortController s"
    by (simp add: makeRequest_def)
next
  show "aborted (abort s) (fetch_signal (makeRequest payload s))"
    by (simp add: makeRequest_def abort_def)
next
  show "\<not> aborted (enter s) (abortController (enter s))"
    by simp
next
  assume "abortAtRequest (env 0) \<and> currentRecursionDepth s < MAX_RECURSION_DEPTH"
  then show "chat_events mk (\<lambda>i. cancellable err (env i)) ms s =
        [DepthIncremented, NetworkRequest ms, ErrorCallback err True,
         Complete (error_payload [] err s), DepthDecremented]"
    using chat_request_cancelled [where env = env and err = err and s = s and mk = mk and ms = ms]
    by simp
next
  assume "\<not> abortAtRequest (env 0) \<and> request (env 0) = Streaming \<and> abortAtRead (env 0) \<and>
    currentRecursionDepth s < MAX_RECURSION_DEPTH"
  then show "chat_events mk (\<lambda>i. cancellable err (env i)) ms s =
        [DepthIncremented, NetworkRequest ms] @ log_of (readEvents (env 0)) @
        [ErrorCallback err True,
         Complete (error_payload (chunks_of (readEvents (env 0))) err s), DepthDecremented]"
    using chat_read_cancelled [where env = env and err = err and s = s and mk = mk and ms = ms]
    by simp
next
  show "chat_events mk (\<lambda>i. without_tool_abort (env i)) ms s = chat_events mk env ms s"
    by (rule chat_events_without_tool_abort)
qed

theorem cancellation_points_witness:
  "abortAtRequest aborted_request \<and> request aborted_request = Streaming \<and>
   \<not> abortAtRequest aborted_read \<and> request aborted_read = Streaming \<and>
   abortAtRead aborted_read \<and> readOutcome aborted_read = ReadResolved (says 5 7) \<and>
   currentRecursionDepth fresh < MAX_RECURSION_DEPTH \<and>
   chat_events tool_message (\<lambda>i. cancellable abort_error aborted_request) [] fresh =
     [DepthIncremented, NetworkRequest [], ErrorCallback abort_error True,
      Complete \<lparr> content = [], toolCalls = [], p_inputTokens = 0, p_outputTokens = 0,
                 error = Some \<lparr> code = 500, message = ''The user aborted a request.'' \<rparr> \<rparr>,
      DepthDecremented] \<and>
   chat_events tool_message (\<lambda>i. cancellable abort_error aborted_read) [] fresh =
     [DepthIncremented, NetworkRequest [], Reading ''par'', ErrorCallback abort_error True,
      Complete \<lparr> content = ''par'', toolCalls = [], p_inputTokens = 0, p_outputTokens = 0,
                 error = Some \<lparr> code = 500, message = ''The user aborted a request.'' \<rparr> \<rparr>,
      DepthDecremented] \<and>
   abortAtTool (aborted_during_tool 0) \<and>
   \<not> abortAtTool (without_tool_abort (aborted_during_tool 0)) \<and>
   chat_events tool_message (\<lambda>i. without_tool_abort (aborted_during_tool i)) [] fresh =
     chat_events tool_message aborted_during_tool [] fresh"
proof -
  have f: "currentRecursionDepth fresh = 0" "inputTokens fresh = 0" "outputTokens fresh = 0"
      "toolCallsWithResponses fresh = []"
    by (simp_all add: fresh_def new_service_def)
  have d: "currentRecursionDepth fresh < MAX_RECURSION_DEPTH"
    using f by (simp add: MAX_RECURSION_DEPTH_def)
  have p: "error_payload reply abort_error fresh =
      \<lparr> content = reply, toolCalls = [], p_inputTokens = 0, p_outputTokens = 0,
        error = Some \<lparr> code = 500, message = ''The user aborted a request.'' \<rparr> \<rparr>" for reply
    using f by (simp add: error_payload_def top_level_reset_def error_code_def error_message_def
        abort_error_def)
  have a1: "abortAtRequest aborted_request" "request aborted_request = Streaming"
    by (simp_all add: aborted_request_def answering_def)
  have a2: "\<not> abortAtRequest aborted_read" "request aborted_read = Streaming"
      "abortAtRead aborted_read" "readOutcome aborted_read = ReadResolved (says 5 7)"
      "readEvents aborted_read = [Progress ''par'']"
    by (simp_all add: aborted_read_def answering_def)
  have a3: "abortAtTool (aborted_during_tool 0)"
      "\<not> abortAtTool (without_tool_abort (aborted_during_tool 0))"
    by (simp_all add: aborted_during_tool_def asking_def without_tool_abort_def resolves_def)
  have c1: "chat_events tool_message (\<lambda>i. cancellable abort_error aborted_request) [] fresh =
     [DepthIncremented, NetworkRequest [], ErrorCallback abort_error True,
      Complete (error_payload [] abort_error fresh), DepthDecremented]"
    using cancellation_points [where env = "\<lambda>i. aborted_request" and err = abort_error
        and s = fresh and mk = tool_message and ms = "[]"] a1 d
    by simp
  have c2: "chat_events tool_message (\<lambda>i. cancellable abort_error aborted_read) [] fresh =
     [DepthIncremented, NetworkRequest []] @ log_of (readEvents aborted_read) @
     [ErrorCallback abort_error True,
      Complete (error_payload (chunks_of (readEvents aborted_read)) abort_error fresh),
      DepthDecremented]"
    using cancellation_points [where env = "\<lambda>i. aborted_read" and err = abort_error
        and s = fresh and mk = tool_message and ms = "[]"] a2(1,2,3) d
    by simp
  have c3: "chat_events tool_message (\<lambda>i. without_tool_abort (aborted_during_tool i)) [] fresh =
     chat_events tool_message aborted_during_tool [] fresh"
    using cancellation_points [where env = aborted_during_tool and s = fresh
        and mk = tool_message and ms = "[]"]
    by simp
  show ?thesis
    using a1 a2(1,2,3,4) a3 d c1 c2 c3
    by (simp add: p a2(5) log_of_def chunks_of_def)
qed

text \<open>
  C9, as stated, at the Tool Host. \<^verbatim>\<open>abort()\<close> is called while the Tool Host is
  awaited; the Tool Host resolves; the chain is not cancelled: the next request is issued,
  the error callback is never invoked, and the completion carries no error.
\<close>

theorem abort_during_tool_call_is_ignored:
  "abortAtTool (aborted_during_tool 0) \<and>
   chat_events tool_message aborted_during_tool [] fresh =
     [DepthIncremented, NetworkRequest [],
      CallTool ''files'' (Some ''search'') (JStr ''report''),
      DepthIncremented, NetworkRequest [\<lparr> role = ''tool'', m_content = JStr ''found'' \<rparr>],
      Reading ''done'',
      Complete \<lparr> content = ''done'',
                 toolCalls = [\<lparr> name = ''files--search'', args = JStr ''report'',
                                response = JStr ''found'' \<rparr>],
                 p_inputTokens = 6, p_outputTokens = 9, error = None \<rparr>,
      DepthDecremented, DepthDecremented]"
proof -
  have f: "currentRecursionDepth fresh = 0" "inputTokens fresh = 0" "outputTokens fresh = 0"
      "toolCallsWithResponses fresh = []"
    by (simp_all add: fresh_def new_service_def)
  have r0: "tool_round (aborted_during_tool 0) (asks_for search) search (JStr ''found'')"
      "abortAtTool (aborted_during_tool 0)" "readEvents (aborted_during_tool 0) = []"
    by (simp_all add: aborted_during_tool_def tool_round_def asking_def asks_for_def)
  then have h1: "\<forall>i<1. tool_round (aborted_during_tool i) ((\<lambda>i. asks_for search) i)
      ((\<lambda>i. search) i) ((\<lambda>i. JStr ''found'') i)"
    by simp
  have h2: "terminal_round (aborted_during_tool 1) (says 5 7)"
      "readEvents (aborted_during_tool 1) = [Progress ''done'']"
    by (simp_all add: aborted_during_tool_def terminal_round_def answering_def says_def)
  have nonneg: "0 \<le> currentRecursionDepth fresh" using f by simp
  have lt: "currentRecursionDepth fresh + int 1 < MAX_RECURSION_DEPTH"
    using f by (simp add: MAX_RECURSION_DEPTH_def)
  note c = chain_to_terminal(1) [where env = aborted_during_tool and mk = tool_message
      and ms = "[]", OF h1 h2(1) nonneg lt]
  have n: "client_and_name ''files--search'' = (''files'', Some ''search'')"
    by (simp add: client_and_name_def split_def)
  show ?thesis
    unfolding c using r0(2,3) h2(2) f
    by (simp add: round_events_def conversation_def call_def search_def n log_of_def chunks_of_def
          tool_message_def asks_for_def says_def reported_def top_level_reset_def)
qed

subsection \<open>C10: the tool calls of the messages of the store\<close>

text \<open>
  C10. Whatever \<^verbatim>\<open>JSON.parse\<close> does (return any value, or throw),
  \<^verbatim>\<open>processMessage\<close> does not throw, and the message it returns is the message it
  was given with \<^verbatim>\<open>toolCalls\<close> replaced by an array: the array parsed from a JSON
  string, the array itself when the property already is one, and the empty array in every
  other case (a null or undefined message or property, a string that does not parse, a
  parsed value or a property that is not an array).

  \<^verbatim>\<open>createMessage\<close> returns, and appends to the state, the processed form of the
  row it writes to the database, so a message created with an array of tool calls that
  \<^verbatim>\<open>JSON.parse\<close> reads back from \<^verbatim>\<open>JSON.stringify\<close> has that array;
  \<^verbatim>\<open>createMessage\<close> rejects only when the insertion does.
  \<^verbatim>\<open>fetchMessages\<close> returns, and puts into the state, the rows of the chat in
  order, each with its \<^verbatim>\<open>toolCalls\<close> column parsed in this way (a falsy column
  becomes the empty array without being parsed, which is the same thing as
  \<^verbatim>\<open>JSON.parse\<close> throws on the empty string); when the query rejects it returns
  the empty array and leaves the state as it is. The state update of
  \<^verbatim>\<open>updateMessage\<close> does not throw; it replaces the message with the identifier
  of the update by the processed form of that message overwritten with the columns of the
  update, and leaves every other message as it is. Every message these three operations
  expose has an array as \<^verbatim>\<open>toolCalls\<close>.
\<close>

theorem store_toolCalls_are_arrays:
  "processMessage parse None =
     Inr [(''id'', JStr []), (''chatId'', JStr []), (''toolCalls'', JArr []),
          (''severity'', JStr ''info'')] \<and>
   processMessage parse (Some m) =
     Inr (AList.update ''toolCalls'' (toolCalls_per_spec parse (getProp m ''toolCalls'')) m) \<and>
   (\<forall>err. processMessage parse chatMessage \<noteq> Inl err) \<and>
   isArray (toolCalls_per_spec parse v) \<and>
   createMessage parse stringify msgId now inserted m st =
     (case inserted of
        Some err \<Rightarrow> Inl err
      | None \<Rightarrow>
          Inr (with_toolCalls parse (written_row stringify msgId now m),
               st\<lparr>messages := messages st @
                     [with_toolCalls parse (written_row stringify msgId now m)]\<rparr>)) \<and>
   toolCalls_is_array (with_toolCalls parse (written_row stringify msgId now m)) \<and>
   getProp (with_toolCalls parse (written_row stringify msgId now m)) ''toolCalls'' =
     toolCalls_per_spec parse
       (JStr (if truthy (getProp m ''toolCalls'') then stringify (getProp m ''toolCalls'')
              else ''[]'')) \<and>
   (getProp m ''toolCalls'' = JArr xs \<and> parse (stringify (JArr xs)) = Inr (JArr xs) \<longrightarrow>
      getProp (with_toolCalls parse (written_row stringify msgId now m)) ''toolCalls'' = JArr xs) \<and>
   fetchMessages parse tempChatId rows chatId st =
     (if chatId = tempChatId then ([], st\<lparr>messages := []\<rparr>)
      else case rows of
             Inl err \<Rightarrow> ([], st)
           | Inr msgs \<Rightarrow>
               (map (fetched_row parse) msgs, st\<lparr>messages := map (fetched_row parse) msgs\<rparr>)) \<and>
   (parse [] = Inl syntaxError \<longrightarrow> fetched_row parse m = with_toolCalls parse m) \<and>
   (\<forall>m \<in> set (fst (fetchMessages parse tempChatId rows chatId st)). toolCalls_is_array m) \<and>
   ((\<forall>m \<in> set (messages st). toolCalls_is_array m) \<longrightarrow>
      (\<forall>m \<in> set (messages (snd (fetchMessages parse tempChatId rows chatId st))).
         toolCalls_is_array m)) \<and>
   updateMessage_set parse msg st =
     Inr (case findIndex (\<lambda>m. getProp m ''id'' = getProp msg ''id'') (messages st) of
            None \<Rightarrow> st
          | Some index \<Rightarrow>
              st\<lparr>messages := (messages st)
                     [index := with_toolCalls parse (spread (messages st ! index) msg)]\<rparr>) \<and>
   ((\<forall>m \<in> set (messages st). toolCalls_is_array m) \<and> updateMessage_set parse msg st = Inr st' \<longrightarrow>
      (\<forall>m \<in> set (messages st'). toolCalls_is_array m))"
proof -
  have never_throws: "\<forall>err. processMessage parse chatMessage \<noteq> Inl err"
    by (cases chatMessage) (simp_all add: processMessage_None processMessage_Some)
  have fetched: "\<forall>m \<in> set (fst (fetchMessages parse tempChatId rows chatId st)). toolCalls_is_array m"
    by (auto simp: fetchMessages_eq split: sum.split)
  have fetch_state: "\<forall>m \<in> set (messages (snd (fetchMessages parse tempChatId rows chatId st))).
         toolCalls_is_array m"
    if "\<forall>m \<in> set (messages st). toolCalls_is_array m"
    using that by (auto simp: fetchMessages_eq split: sum.split)
  have updated: "\<forall>m \<in> set (messages st'). toolCalls_is_array m"
    if "(\<forall>m \<in> set (messages st). toolCalls_is_array m) \<and> updateMessage_set parse msg st = Inr st'"
    using that updated_arrays [of st parse msg st'] by blast
  have round_trip:
    "getProp (with_toolCalls parse (written_row stringify msgId now m)) ''toolCalls'' = JArr xs"
    if "getProp m ''toolCalls'' = JArr xs \<and> parse (stringify (JArr xs)) = Inr (JArr xs)"
    using that created_round_trip [of m xs parse stringify msgId now] by blast
  have per_spec: "fetched_row parse m = with_toolCalls parse m" if "parse [] = Inl syntaxError"
    using that by (rule fetched_row_per_spec)
  show ?thesis
    using processMessage_None [of parse] processMessage_Some [of parse m] never_throws
      isArray_toolCalls_per_spec [of parse v]
      createMessage_eq [of parse stringify msgId now inserted m st]
      with_toolCalls_array [of parse "written_row stringify msgId now m"]
      created_toolCalls [of parse stringify msgId now m]
      round_trip fetchMessages_eq [of parse tempChatId rows chatId st] per_spec
      fetched fetch_state updateMessage_set_eq [of parse msg st] updated
    unfolding with_toolCalls_def [of parse m]
    by (intro conjI impI) assumption+
qed

theorem store_toolCalls_are_arrays_witness:
  "parse_sample ''not json'' = Inl syntax_error \<and>
   parse_sample [] = Inl syntax_error \<and>
   getProp draft ''toolCalls'' = JArr [JNum 1] \<and>
   parse_sample (stringify_sample (JArr [JNum 1])) = Inr (JArr [JNum 1]) \<and>
   processMessage parse_sample (Some stored_row) = Inr shown_row \<and>
   processMessage parse_sample (Some broken_row) = Inr mended_row \<and>
   createMessage parse_sample stringify_sample ''msg_2'' 7 None draft \<lparr> messages = [shown_row] \<rparr> =
     Inr (created_row, \<lparr> messages = [shown_row, created_row] \<rparr>) \<and>
   getProp created_row ''toolCalls'' = JArr [JNum 1] \<and>
   fetchMessages parse_sample ''temp'' (Inr [stored_row, broken_row]) ''chat_1''
       \<lparr> messages = [] \<rparr> =
     ([shown_row, mended_row], \<lparr> messages = [shown_row, mended_row] \<rparr>) \<and>
   toolCalls_is_array shown_row \<and> toolCalls_is_array mended_row \<and>
   updateMessage_set parse_sample amendment \<lparr> messages = [shown_row, mended_row] \<rparr> =
     Inr \<lparr> messages = [shown_row, amended_row] \<rparr> \<and>
   toolCalls_is_array amended_row \<and>
   getProp mended_row ''toolCalls'' = JArr [] \<and>
   getProp amended_row ''toolCalls'' = JArr [JNum 1]"
proof -
  note rows = stored_row_def shown_row_def broken_row_def mended_row_def draft_def
    created_row_def amendment_def amended_row_def
  note eval = with_toolCalls_def written_row_def fetched_row_def toolCalls_per_spec_def
    parse_sample_def stringify_sample_def getProp_def spread_def
  have p: "parse_sample ''not json'' = Inl syntax_error" "parse_sample [] = Inl syntax_error"
      "parse_sample (stringify_sample (JArr [JNum 1])) = Inr (JArr [JNum 1])"
    by (simp_all add: parse_sample_def stringify_sample_def)
  have g: "getProp draft ''toolCalls'' = JArr [JNum 1]"
      "getProp mended_row ''toolCalls'' = JArr []"
    by (simp_all add: rows getProp_def)
  have e1: "with_toolCalls parse_sample stored_row = shown_row"
      "with_toolCalls parse_sample broken_row = mended_row"
    by (simp_all add: rows eval)
  have e2: "with_toolCalls parse_sample (written_row stringify_sample ''msg_2'' 7 draft) = created_row"
    by (simp add: rows eval)
  have e3: "fetched_row parse_sample stored_row = shown_row"
      "fetched_row parse_sample broken_row = mended_row"
    by (simp_all add: rows eval)
  have e4: "findIndex (\<lambda>m. getProp m ''id'' = getProp amendment ''id'') [shown_row, mended_row] =
      Some 1"
    by (simp add: rows getProp_def)
  have e5: "with_toolCalls parse_sample (spread mended_row amendment) = amended_row"
    by (simp add: rows eval)
  note t1 = store_toolCalls_are_arrays [where parse = parse_sample and stringify = stringify_sample
      and msgId = "''msg_2''" and now = 7 and inserted = None and m = draft
      and st = "\<lparr> messages = [shown_row] \<rparr>" and xs = "[JNum 1]"
      and chatMessage = None and v = JNull and tempChatId = "''temp''" and rows = "Inr []"
      and chatId = "''chat_1''" and syntaxError = syntax_error and msg = amendment
      and st' = "\<lparr> messages = [shown_row] \<rparr>"]
  note t2 = store_toolCalls_are_arrays [where parse = parse_sample and stringify = stringify_sample
      and msgId = "''msg_2''" and now = 7 and inserted = None and m = stored_row
      and st = "\<lparr> messages = [] \<rparr>" and xs = "[]"
      and chatMessage = None and v = JNull and tempChatId = "''temp''"
      and rows = "Inr [stored_row, broken_row]"
      and chatId = "''chat_1''" and syntaxError = syntax_error and msg = amendment
      and st' = "\<lparr> messages = [] \<rparr>"]
  note t3 = store_toolCalls_are_arrays [where parse = parse_sample and stringify = stringify_sample
      and msgId = "''msg_2''" and now = 7 and inserted = None and m = broken_row
      and st = "\<lparr> messages = [shown_row, mended_row] \<rparr>" and xs = "[]"
      and chatMessage = None and v = JNull and tempChatId = "''temp''" and rows = "Inr []"
      and chatId = "''chat_1''" and syntaxError = syntax_error and msg = amendment
      and st' = "\<lparr> messages = [shown_row, amended_row] \<rparr>"]
  have c1: "processMessage parse_sample (Some stored_row) = Inr shown_row"
    using t2 e1(1) by (simp add: with_toolCalls_def)
  have c2: "processMessage parse_sample (Some broken_row) = Inr mended_row"
    using t3 e1(2) by (simp add: with_toolCalls_def)
  have c3: "createMessage parse_sample stringify_sample ''msg_2'' 7 None draft
      \<lparr> messages = [shown_row] \<rparr> = Inr (created_row, \<lparr> messages = [shown_row, created_row] \<rparr>)"
    using t1 by (simp add: e2)
  have c4: "getProp created_row ''toolCalls'' = JArr [JNum 1]"
    using t1 g(1) p(3) unfolding e2 by blast
  have c5: "fetchMessages parse_sample ''temp'' (Inr [stored_row, broken_row]) ''chat_1''
       \<lparr> messages = [] \<rparr> = ([shown_row, mended_row], \<lparr> messages = [shown_row, mended_row] \<rparr>)"
    using t2 by (simp add: e3)
  have c6: "toolCalls_is_array shown_row" "toolCalls_is_array mended_row"
    using t2 c5 by simp_all
  have c7: "updateMessage_set parse_sample amendment \<lparr> messages = [shown_row, mended_row] \<rparr> =
     Inr \<lparr> messages = [shown_row, amended_row] \<rparr>"
    using t3 by (simp add: e4 e5 del: findIndex.simps)
  have c8: "toolCalls_is_array amended_row"
    using t3 c6 c7 by simp
  have c9: "getProp amended_row ''toolCalls'' = JArr [JNum 1]"
    by (simp add: rows getProp_def)
  show ?thesis
    using p g c1 c2 c3 c4 c5 c6 c7 c8 c9 by simp
qed

end
